theory Spec2Isabelle
  imports Complex_Main
begin

section \<open>TEHTRIS EDR installer automation: the driver of the installer wizard\<close>

text \<open>
  The development embeds \<^verbatim>\<open>src/ansible/res/tehtris_edr_installer.py\<close>, the class
  \<^verbatim>\<open>TehtrisEDRInstaller\<close>. The class talks to the outside world all the time (win32gui,
  pyautogui, pytesseract, psutil, the clock). Every answer of the outside world is a field
  of a \<open>snapshot\<close>; the environment holds one snapshot per external call (\<open>timeline\<close>), so
  the answers may change from one call to the next in any way. Every call made to the
  outside world is recorded, in order, in the \<open>trace\<close> of the state.
\<close>

subsection \<open>Strings\<close>

text \<open>
  A Python string is modelled as the list of its code points, each below 256 (the Latin-1
  range); a \<open>char\<close> is one code point. \<^verbatim>\<open>str.lower\<close> on that range maps A to Z and the
  accented capitals U+00C0 to U+00DE, the multiplication sign U+00D7 apart, to the
  character 32 places further, and leaves every other character as it is.
\<close>

definition lower_char :: "char \<Rightarrow> char" where
  "lower_char c =
     (let n = (of_char c :: nat)
      in if (65 \<le> n \<and> n \<le> 90) \<or> (192 \<le> n \<and> n \<le> 222 \<and> n \<noteq> 215)
         then char_of (n + 32) else c)"

definition lower :: "string \<Rightarrow> string" where
  "lower s = map lower_char s"

text \<open>\<^verbatim>\<open>s.startswith(p)\<close>\<close>

fun starts_with :: "string \<Rightarrow> string \<Rightarrow> bool" where
  "starts_with [] s = True"
| "starts_with (c # cs) [] = False"
| "starts_with (c # cs) (d # ds) = (c = d \<and> starts_with cs ds)"

text \<open>\<^verbatim>\<open>sub in s\<close>: \<open>sub\<close> occurs in \<open>s\<close> as a contiguous substring.\<close>

fun str_in :: "string \<Rightarrow> string \<Rightarrow> bool" where
  "str_in sub [] = (sub = [])"
| "str_in sub (c # cs) = (starts_with sub (c # cs) \<or> str_in sub cs)"

text \<open>\<^verbatim>\<open>s.replace('&', '')\<close>\<close>

definition strip_amp :: "string \<Rightarrow> string" where
  "strip_amp s = filter (\<lambda>c. c \<noteq> CHR ''&'') s"

text \<open>\<^verbatim>\<open>s.replace('&', '').lower()\<close>, as applied to the query and to the control text.\<close>

definition clean :: "string \<Rightarrow> string" where
  "clean s = lower (strip_amp s)"

subsection \<open>Errors, events and the state\<close>

datatype error = Exc string

text \<open>Where a call to \<^verbatim>\<open>click_coordinates\<close> comes from (the description it is given).\<close>

datatype origin = FoundByText string | FallbackPosition | FieldByLabel string | FieldFallback

text \<open>
  One event per call to the outside world, with the outcome where the code branches on it.
  \<open>PostClick h ok\<close>: \<^verbatim>\<open>PostMessage(h, BM_CLICK, 0, 0)\<close>, \<open>ok\<close> unless it raised.
  \<open>Hotkey a b ok\<close>: \<^verbatim>\<open>pyautogui.hotkey(a, b)\<close>, \<open>ok\<close> unless it raised.
  \<open>TabKey h down\<close>: \<^verbatim>\<open>SendMessage(h, WM_KEYDOWN or WM_KEYUP, VK_TAB, 0)\<close>.
  \<open>Sleep ms\<close>: \<^verbatim>\<open>time.sleep\<close>, in milliseconds.
\<close>

datatype event =
    Sleep nat
  | Screenshot string
  | WindowTextDump
  | EnumWindows
  | OcrScan string
  | ColorScan
  | PostClick nat bool
  | FocusClick int int
  | SetText nat string
  | TabKey nat bool
  | ClickCoordinates int int origin "error + bool"
  | Hotkey string string bool
  | WriteText string
  | Popen string
  | ConnectApp
  | ProcessScan
  | AdminCheck

record st =
  trace :: "event list"
  tick :: nat
  clock :: nat

subsection \<open>What the outside world answers\<close>

text \<open>
  A child control as win32gui shows it. \<open>c_faulty\<close>: a query on the handle raises inside
  the enumeration callback (the callback catches it and goes on). \<open>c_post_raises\<close>:
  \<^verbatim>\<open>PostMessage\<close> to the handle raises. \<open>c_fill_fault = Some k\<close>: in the sequence of calls that
  fills the control, \<^verbatim>\<open>GetWindowRect\<close> raises (\<open>k = 0\<close>) or the \<open>k\<close>-th call after it raises.
\<close>

record control =
  c_hwnd :: nat
  c_faulty :: bool
  c_visible :: bool
  c_iswindow :: bool
  c_text :: string
  c_class :: string
  c_rect :: "int \<times> int \<times> int \<times> int"
  c_post_raises :: bool
  c_fill_fault :: "nat option"

text \<open>A top-level window; \<open>w_enum_raises\<close>: \<^verbatim>\<open>EnumChildWindows\<close> on it raises.\<close>

record window =
  w_hwnd :: nat
  w_faulty :: bool
  w_visible :: bool
  w_iswindow :: bool
  w_title :: string
  w_children :: "control list"
  w_enum_raises :: bool

text \<open>One row of \<^verbatim>\<open>pytesseract.image_to_data\<close>.\<close>

record ocr_word =
  o_text :: string
  o_conf :: int
  o_left :: int
  o_top :: int
  o_width :: int
  o_height :: int

text \<open>A contour of the colour mask: \<^verbatim>\<open>cv2.contourArea\<close> and the moments m00, m10, m01.\<close>

record contour =
  area :: rat
  m00 :: rat
  m10 :: rat
  m01 :: rat

type_synonym color_range = "nat list \<times> nat list"

text \<open>
  The answers to one external call. \<open>enum_visited\<close> are the windows \<^verbatim>\<open>EnumWindows\<close> passed to
  the callback, \<open>enum_raises\<close> whether it raised afterwards, \<open>find_window\<close> the answer of
  \<^verbatim>\<open>FindWindow(None, "TEHTRIS EDR Setup")\<close> (\<open>None\<close> when it raises). \<open>ocr_data\<close> and \<open>contours\<close>
  are \<open>None\<close> when the capture or the analysis raises.

  \<^verbatim>\<open>click_coordinates\<close> is called by the source and defined nowhere in it; its outcome is a
  parameter, \<open>click_result\<close>: it returns a boolean or raises (in the file as it is, every
  call raises \<^verbatim>\<open>AttributeError\<close>).
\<close>

record snapshot =
  latency :: nat
  win32_import_ok :: bool
  enum_visited :: "window list"
  enum_raises :: bool
  find_window :: "window option"
  ocr_data :: "ocr_word list option"
  contours :: "color_range \<Rightarrow> contour list option"
  click_result :: "int \<Rightarrow> int \<Rightarrow> error + bool"
  hotkey_raises :: bool
  write_raises :: bool
  popen_raises :: bool
  connect_ok :: bool

text \<open>\<^verbatim>\<open>self.config\<close>\<close>

record config =
  server_address :: string
  tag :: string
  license_key :: string

definition default_config :: config where
  "default_config =
     \<lparr>server_address = ''xpgapp16.tehtris.net'', tag = ''XPG_QAT'',
      license_key = ''MH83-2CDX-9DXQ-LG89-92FF''\<rparr>"

text \<open>
  What \<^verbatim>\<open>win32api.GetFileVersionInfo\<close> gives for an executable: win32api cannot be
  imported, the call raises, or the file description.
\<close>

datatype version_probe = NoWin32api | VersionRaises | Description string

text \<open>
  What \<^verbatim>\<open>psutil.process_iter\<close> yields for one process. \<open>ProcGone\<close>: reading it raises
  NoSuchProcess, AccessDenied or ZombieProcess. \<open>ProcBroken\<close>: reading it raises something
  else, outside the inner handlers. \<open>ProcInfo pid name exe v\<close>: its pid, name and
  executable path (empty when there is none), and the version probe of that path.
\<close>

datatype proc_probe =
    ProcGone
  | ProcBroken
  | ProcInfo nat string string version_probe

text \<open>
  The instance and the module flags. \<open>max_retries\<close> is a Python int; \<open>retry_delay\<close> is in
  milliseconds.
\<close>

record env =
  dry_run :: bool
  pywinauto_available :: bool
  pyautogui_available :: bool
  msi_path :: string
  msi_exists :: bool
  cfg :: config
  max_retries :: int
  retry_delay :: nat
  timeline :: "nat \<Rightarrow> snapshot"
  psutil_available :: bool
  process_iter :: "proc_probe list"

text \<open>The snapshot that answers the next external call.\<close>

definition now :: "env \<Rightarrow> st \<Rightarrow> snapshot" where
  "now e s = timeline e (tick s)"

fun sleep_ms :: "event \<Rightarrow> nat" where
  "sleep_ms (Sleep ms) = ms"
| "sleep_ms _ = 0"

text \<open>
  One external call: its events are appended to the trace, the next snapshot becomes
  current, and the clock advances by the time the call took and by the sleeps in it.
\<close>

definition run_events :: "env \<Rightarrow> event list \<Rightarrow> st \<Rightarrow> st" where
  "run_events e evs s =
     s\<lparr>trace := trace s @ evs, tick := Suc (tick s),
       clock := clock s + latency (now e s) + sum_list (map sleep_ms evs)\<rparr>"

text \<open>\<^verbatim>\<open>time.sleep\<close> between two calls.\<close>

definition sleep :: "nat \<Rightarrow> st \<Rightarrow> st" where
  "sleep ms s = s\<lparr>trace := trace s @ [Sleep ms], clock := clock s + ms\<rparr>"

subsection \<open>\<^verbatim>\<open>click_with_win32gui\<close>\<close>

text \<open>The callback \<^verbatim>\<open>find_tehtris_windows\<close>.\<close>

definition is_tehtris_window :: "window \<Rightarrow> bool" where
  "is_tehtris_window w =
     (\<not> w_faulty w \<and> w_visible w \<and> w_iswindow w \<and> w_title w \<noteq> []
      \<and> str_in ''TEHTRIS EDR Setup'' (w_title w))"

text \<open>
  The list \<^verbatim>\<open>tehtris_windows\<close>: the windows the callback kept; when \<^verbatim>\<open>EnumWindows\<close> raised
  and \<^verbatim>\<open>FindWindow\<close> gives a nonzero handle, that window alone.
\<close>

definition tehtris_windows :: "snapshot \<Rightarrow> window list" where
  "tehtris_windows snap =
     (let visited = filter is_tehtris_window (enum_visited snap) in
      if enum_raises snap then
        (case find_window snap of
           Some w \<Rightarrow> if w_hwnd w \<noteq> 0 then [w] else visited
         | None \<Rightarrow> visited)
      else visited)"

text \<open>The test of the callback \<^verbatim>\<open>find_button_callback\<close> that stops the enumeration.\<close>

definition button_matches :: "string \<Rightarrow> control \<Rightarrow> bool" where
  "button_matches button_text c =
     (\<not> c_faulty c \<and> c_visible c \<and> c_iswindow c \<and> c_text c \<noteq> []
      \<and> str_in (clean button_text) (clean (c_text c))
      \<and> c_class c = ''Button''
      \<and> \<not> str_in ''not'' (clean (c_text c)))"

text \<open>
  The loop over the TEHTRIS windows: the first matching child of a window is clicked;
  a window whose enumeration raises, that has no match or whose \<^verbatim>\<open>PostMessage\<close> raises is
  passed over (\<^verbatim>\<open>continue\<close>).
\<close>

fun click_in_windows :: "string \<Rightarrow> window list \<Rightarrow> bool \<times> event list" where
  "click_in_windows button_text [] = (False, [])"
| "click_in_windows button_text (w # ws) =
     (if w_enum_raises w then click_in_windows button_text ws
      else
        (case find (button_matches button_text) (w_children w) of
           None \<Rightarrow> click_in_windows button_text ws
         | Some c \<Rightarrow>
             if c_post_raises c then
               (case click_in_windows button_text ws of
                  (b, evs) \<Rightarrow> (b, PostClick (c_hwnd c) False # evs))
             else (True, [PostClick (c_hwnd c) True])))"

definition click_events :: "snapshot \<Rightarrow> string \<Rightarrow> bool \<times> event list" where
  "click_events snap button_text =
     (if \<not> win32_import_ok snap then (False, [])
      else if tehtris_windows snap = [] then (False, [EnumWindows])
      else
        (case click_in_windows button_text (tehtris_windows snap) of
           (b, evs) \<Rightarrow> (b, EnumWindows # evs)))"

definition click_with_win32gui :: "env \<Rightarrow> string \<Rightarrow> st \<Rightarrow> bool \<times> st" where
  "click_with_win32gui e button_text s =
     (case click_events (now e s) button_text of
        (b, evs) \<Rightarrow> (b, run_events e evs s))"

subsection \<open>\<^verbatim>\<open>fill_field_with_win32gui\<close>\<close>

text \<open>The callback \<^verbatim>\<open>find_edit_callback\<close>.\<close>

definition is_edit_control :: "control \<Rightarrow> bool" where
  "is_edit_control c =
     (\<not> c_faulty c \<and> c_visible c \<and> c_iswindow c
      \<and> c_class c \<in> set [''Edit'', ''TextBox'', ''RichEdit'', ''RichEdit20A'', ''RichEdit20W''])"

definition edit_controls :: "window \<Rightarrow> control list" where
  "edit_controls w = filter is_edit_control (w_children w)"

text \<open>The \<^verbatim>\<open>if\<close>/\<^verbatim>\<open>elif\<close> chain that turns the label into \<^verbatim>\<open>field_index\<close>.\<close>

definition field_index :: "string \<Rightarrow> nat" where
  "field_index field_label =
     (if str_in ''server'' (lower field_label) then 0
      else if str_in ''tag'' (lower field_label) then 1
      else if str_in ''license'' (lower field_label) then 2
      else 0)"

fun is_sleep :: "event \<Rightarrow> bool" where
  "is_sleep (Sleep ms) = True"
| "is_sleep _ = False"

text \<open>The events up to the \<open>k\<close>-th call, that call included (sleeps are not calls).\<close>

fun upto_call :: "nat \<Rightarrow> event list \<Rightarrow> event list" where
  "upto_call 0 evs = []"
| "upto_call (Suc k) [] = []"
| "upto_call (Suc k) (ev # evs) =
     ev # (if is_sleep ev then upto_call (Suc k) evs else upto_call k evs)"

text \<open>
  The calls that fill one edit control: a click in its centre when pyautogui is there,
  the text cleared, the text set, Tab pressed and released.
\<close>

definition fill_calls :: "bool \<Rightarrow> control \<Rightarrow> string \<Rightarrow> event list" where
  "fill_calls pyautogui c v =
     (case c_rect c of (x0, y0, x1, y1) \<Rightarrow>
        (if pyautogui
         then [FocusClick ((x0 + x1) div 2) ((y0 + y1) div 2), Sleep 200]
         else [])
        @ [SetText (c_hwnd c) [], Sleep 100, SetText (c_hwnd c) v, Sleep 100,
           TabKey (c_hwnd c) True, TabKey (c_hwnd c) False])"

text \<open>The result is \<open>False\<close> when one of the calls raised (the window is then passed over).\<close>

definition fill_control :: "bool \<Rightarrow> control \<Rightarrow> string \<Rightarrow> bool \<times> event list" where
  "fill_control pyautogui c v =
     (case c_fill_fault c of
        None \<Rightarrow> (True, fill_calls pyautogui c v)
      | Some k \<Rightarrow>
          if k \<le> length (filter (\<lambda>ev. \<not> is_sleep ev) (fill_calls pyautogui c v))
          then (False, upto_call k (fill_calls pyautogui c v))
          else (True, fill_calls pyautogui c v))"

fun fill_in_windows :: "bool \<Rightarrow> nat \<Rightarrow> string \<Rightarrow> window list \<Rightarrow> bool \<times> event list" where
  "fill_in_windows pyautogui idx v [] = (False, [])"
| "fill_in_windows pyautogui idx v (w # ws) =
     (if w_enum_raises w then fill_in_windows pyautogui idx v ws
      else if edit_controls w \<noteq> [] \<and> idx < length (edit_controls w) then
        (case fill_control pyautogui (edit_controls w ! idx) v of
           (ok, evs) \<Rightarrow>
             if ok then (True, evs)
             else
               (case fill_in_windows pyautogui idx v ws of
                  (b, evs') \<Rightarrow> (b, evs @ evs')))
      else fill_in_windows pyautogui idx v ws)"

definition fill_events :: "snapshot \<Rightarrow> bool \<Rightarrow> string \<Rightarrow> string \<Rightarrow> bool \<times> event list" where
  "fill_events snap pyautogui field_label v =
     (if \<not> win32_import_ok snap then (False, [])
      else if tehtris_windows snap = [] then (False, [EnumWindows])
      else
        (case fill_in_windows pyautogui (field_index field_label) v (tehtris_windows snap) of
           (b, evs) \<Rightarrow> (b, EnumWindows # evs)))"

definition fill_field_with_win32gui :: "env \<Rightarrow> string \<Rightarrow> string \<Rightarrow> st \<Rightarrow> bool \<times> st" where
  "fill_field_with_win32gui e field_label v s =
     (case fill_events (now e s) (pyautogui_available e) field_label v of
        (b, evs) \<Rightarrow> (b, run_events e evs s))"

subsection \<open>Screen capture, OCR and colour detection\<close>

definition take_screenshot :: "env \<Rightarrow> string \<Rightarrow> st \<Rightarrow> st" where
  "take_screenshot e step_name s =
     (if \<not> pyautogui_available e \<or> dry_run e then s
      else run_events e [Screenshot step_name] s)"

text \<open>
  \<^verbatim>\<open>print_window_text\<close> only reads (pywinauto, OCR, win32gui) and prints; every part of it
  is inside a handler. It is one event.
\<close>

definition print_window_text :: "env \<Rightarrow> st \<Rightarrow> st" where
  "print_window_text e s = run_events e [WindowTextDump] s"

text \<open>The loop of \<^verbatim>\<open>find_text_on_screen\<close> over the rows; the default confidence is 0.8.\<close>

definition match_ocr :: "string \<Rightarrow> ocr_word list \<Rightarrow> (int \<times> int) option" where
  "match_ocr text ws =
     (case find (\<lambda>w. str_in (lower text) (lower (o_text w)) \<and> o_conf w > 80) ws of
        None \<Rightarrow> None
      | Some w \<Rightarrow> Some (o_left w + o_width w div 2, o_top w + o_height w div 2))"

definition find_text_on_screen :: "env \<Rightarrow> string \<Rightarrow> st \<Rightarrow> (int \<times> int) option \<times> st" where
  "find_text_on_screen e text s =
     (if \<not> pyautogui_available e \<or> dry_run e then (None, s)
      else
        ((case ocr_data (now e s) of None \<Rightarrow> None | Some ws \<Rightarrow> match_ocr text ws),
         run_events e [OcrScan text] s))"

text \<open>
  \<^verbatim>\<open>find_button_by_text\<close>: the search repeated every second until \<open>timeout\<close> seconds
  have passed (\<open>timeout\<close> and \<open>start\<close> of the loop are in milliseconds).
\<close>

function find_button_loop ::
  "env \<Rightarrow> string \<Rightarrow> nat \<Rightarrow> nat \<Rightarrow> st \<Rightarrow> (int \<times> int) option \<times> st" where
  "find_button_loop e button_text timeout start s =
     (if clock s - start < timeout then
        (case fst (find_text_on_screen e button_text s) of
           Some position \<Rightarrow> (Some position, snd (find_text_on_screen e button_text s))
         | None \<Rightarrow>
             find_button_loop e button_text timeout start
               (sleep 1000 (snd (find_text_on_screen e button_text s))))
      else (None, s))"
  by pat_completeness auto
termination
  by (relation "measure (\<lambda>(e, t, timeout, start, s). timeout + start - clock s)")
     (auto simp: sleep_def find_text_on_screen_def run_events_def)

declare find_button_loop.simps [simp del]

definition find_button_by_text ::
  "env \<Rightarrow> string \<Rightarrow> nat \<Rightarrow> st \<Rightarrow> (int \<times> int) option \<times> st" where
  "find_button_by_text e button_text timeout s =
     (if \<not> pyautogui_available e \<or> dry_run e then (None, s)
      else find_button_loop e button_text (timeout * 1000) (clock s) s)"

text \<open>Python's \<^verbatim>\<open>int()\<close> of a float: towards zero.\<close>

definition py_int :: "rat \<Rightarrow> int" where
  "py_int x = (if x < 0 then \<lceil>x\<rceil> else \<lfloor>x\<rfloor>)"

definition find_ui_element_by_color ::
  "env \<Rightarrow> color_range \<Rightarrow> int \<Rightarrow> st \<Rightarrow> (int \<times> int) option \<times> st" where
  "find_ui_element_by_color e color_range min_area s =
     (if \<not> pyautogui_available e \<or> dry_run e then (None, s)
      else
        ((case contours (now e s) color_range of
            None \<Rightarrow> None
          | Some cs \<Rightarrow>
              (case find (\<lambda>c. area c > of_int min_area \<and> m00 c \<noteq> 0)
                      (sort_key (\<lambda>c. - area c) cs) of
                 None \<Rightarrow> None
               | Some c \<Rightarrow> Some (py_int (m10 c / m00 c), py_int (m01 c / m00 c)))),
         run_events e [ColorScan] s))"

subsection \<open>Pointer and keyboard\<close>

definition click_coordinates ::
  "env \<Rightarrow> int \<Rightarrow> int \<Rightarrow> origin \<Rightarrow> st \<Rightarrow> (error + bool) \<times> st" where
  "click_coordinates e x y org s =
     (click_result (now e s) x y,
      run_events e [ClickCoordinates x y org (click_result (now e s) x y)] s)"

definition hotkey :: "env \<Rightarrow> string \<Rightarrow> string \<Rightarrow> st \<Rightarrow> (error + unit) \<times> st" where
  "hotkey e k1 k2 s =
     ((if hotkey_raises (now e s) then Inl (Exc ''hotkey'') else Inr ()),
      run_events e [Hotkey k1 k2 (\<not> hotkey_raises (now e s))] s)"

definition write_text :: "env \<Rightarrow> string \<Rightarrow> st \<Rightarrow> (error + unit) \<times> st" where
  "write_text e v s =
     ((if write_raises (now e s) then Inl (Exc ''write'') else Inr ()),
      run_events e [WriteText v] s)"

subsection \<open>\<^verbatim>\<open>smart_find_and_click\<close>\<close>

definition search_texts :: "string \<Rightarrow> string list" where
  "search_texts text =
     [text, if CHR ''&'' \<in> set text then strip_amp text else CHR ''&'' # text]"

text \<open>
  The inner loop over \<^verbatim>\<open>search_texts\<close> and the outer loop over \<^verbatim>\<open>text_options\<close>.
  \<open>Inr True\<close>: a click succeeded and the function returns; \<open>Inr False\<close>: the loop ended;
  \<open>Inl\<close>: \<^verbatim>\<open>click_coordinates\<close> raised.
\<close>

fun try_search_texts :: "env \<Rightarrow> string list \<Rightarrow> st \<Rightarrow> (error + bool) \<times> st" where
  "try_search_texts e [] s = (Inr False, s)"
| "try_search_texts e (t # ts) s =
     (case find_text_on_screen e t s of
        (None, s1) \<Rightarrow> try_search_texts e ts s1
      | (Some (x, y), s1) \<Rightarrow>
          (case click_coordinates e x y (FoundByText t) s1 of
             (Inl err, s2) \<Rightarrow> (Inl err, s2)
           | (Inr ok, s2) \<Rightarrow> if ok then (Inr True, s2) else try_search_texts e ts s2))"

fun try_text_options :: "env \<Rightarrow> string list \<Rightarrow> st \<Rightarrow> (error + bool) \<times> st" where
  "try_text_options e [] s = (Inr False, s)"
| "try_text_options e (text # texts) s =
     (case try_search_texts e (search_texts text) s of
        (Inl err, s1) \<Rightarrow> (Inl err, s1)
      | (Inr ok, s1) \<Rightarrow> if ok then (Inr True, s1) else try_text_options e texts s1)"

fun try_fallback_positions :: "env \<Rightarrow> (int \<times> int) list \<Rightarrow> st \<Rightarrow> (error + bool) \<times> st" where
  "try_fallback_positions e [] s = (Inr False, s)"
| "try_fallback_positions e ((x, y) # ps) s =
     (case click_coordinates e x y FallbackPosition s of
        (Inl err, s1) \<Rightarrow> (Inl err, s1)
      | (Inr ok, s1) \<Rightarrow>
          if ok then (Inr True, sleep 500 s1) else try_fallback_positions e ps s1)"

text \<open>The accelerator chosen from the words in \<^verbatim>\<open>element_type\<close>.\<close>

definition shortcut_for :: "string \<Rightarrow> string option" where
  "shortcut_for element_type =
     (if str_in ''next'' (lower element_type) then Some ''n''
      else if str_in ''accept'' (lower element_type) then Some ''a''
      else if str_in ''install'' (lower element_type) then Some ''i''
      else if str_in ''finish'' (lower element_type) then Some ''f''
      else None)"

definition try_keyboard :: "env \<Rightarrow> string \<Rightarrow> st \<Rightarrow> (error + bool) \<times> st" where
  "try_keyboard e element_type s =
     (if pyautogui_available e then
        (case shortcut_for element_type of
           None \<Rightarrow> (Inr False, s)
         | Some k \<Rightarrow>
             (case hotkey e ''alt'' k s of
                (Inl err, s1) \<Rightarrow> (Inl err, s1)
              | (Inr u, s1) \<Rightarrow> (Inr True, sleep 500 s1)))
      else (Inr False, s))"

definition smart_find_and_click ::
  "env \<Rightarrow> string \<Rightarrow> string list \<Rightarrow> (int \<times> int) list \<Rightarrow> st \<Rightarrow> (error + bool) \<times> st" where
  "smart_find_and_click e element_type text_options fallback_positions s =
     (if dry_run e then (Inr True, s)
      else
        (case (if pyautogui_available e then try_text_options e text_options s
               else (Inr False, s)) of
           (Inl err, s1) \<Rightarrow> (Inl err, s1)
         | (Inr ok, s1) \<Rightarrow>
             if ok then (Inr True, s1)
             else
               (case try_fallback_positions e fallback_positions s1 of
                  (Inl err, s2) \<Rightarrow> (Inl err, s2)
                | (Inr ok2, s2) \<Rightarrow>
                    if ok2 then (Inr True, s2) else try_keyboard e element_type s2)))"

subsection \<open>\<^verbatim>\<open>smart_fill_field\<close>\<close>

text \<open>\<^verbatim>\<open>find_input_field_by_label\<close>, with its default offsets 0 and 25.\<close>

definition find_input_field_by_label :: "env \<Rightarrow> string \<Rightarrow> st \<Rightarrow> (int \<times> int) option \<times> st" where
  "find_input_field_by_label e label_text s =
     (if \<not> pyautogui_available e \<or> dry_run e then (None, s)
      else
        (case find_text_on_screen e label_text s of
           (None, s1) \<Rightarrow> (None, s1)
         | (Some (x, y), s1) \<Rightarrow> (Some (x + 0, y + 25), s1)))"

text \<open>Ctrl+A, then the value typed.\<close>

definition select_all_and_write :: "env \<Rightarrow> string \<Rightarrow> st \<Rightarrow> (error + unit) \<times> st" where
  "select_all_and_write e v s =
     (case hotkey e ''ctrl'' ''a'' s of
        (Inl err, s1) \<Rightarrow> (Inl err, s1)
      | (Inr u, s1) \<Rightarrow> write_text e v s1)"

fun fill_by_labels :: "env \<Rightarrow> string \<Rightarrow> string list \<Rightarrow> st \<Rightarrow> (error + bool) \<times> st" where
  "fill_by_labels e v [] s = (Inr False, s)"
| "fill_by_labels e v (l # ls) s =
     (case find_input_field_by_label e l s of
        (None, s1) \<Rightarrow> fill_by_labels e v ls s1
      | (Some (x, y), s1) \<Rightarrow>
          (case click_coordinates e x y (FieldByLabel l) s1 of
             (Inl err, s2) \<Rightarrow> (Inl err, s2)
           | (Inr ok, s2) \<Rightarrow>
               if ok then
                 (if pyautogui_available e then
                    (case select_all_and_write e v (sleep 300 s2) of
                       (Inl err, s3) \<Rightarrow> (Inl err, s3)
                     | (Inr u, s3) \<Rightarrow> (Inr True, s3))
                  else fill_by_labels e v ls (sleep 300 s2))
               else fill_by_labels e v ls s2))"

fun fill_by_positions :: "env \<Rightarrow> string \<Rightarrow> (int \<times> int) list \<Rightarrow> st \<Rightarrow> (error + bool) \<times> st" where
  "fill_by_positions e v [] s = (Inr False, s)"
| "fill_by_positions e v ((x, y) # ps) s =
     (case click_coordinates e x y FieldFallback s of
        (Inl err, s1) \<Rightarrow> (Inl err, s1)
      | (Inr ok, s1) \<Rightarrow>
          if ok then
            (if pyautogui_available e then
               (case select_all_and_write e v (sleep 300 s1) of
                  (Inl err, s2) \<Rightarrow> (Inl err, s2)
                | (Inr u, s2) \<Rightarrow> (Inr True, s2))
             else fill_by_positions e v ps (sleep 300 s1))
          else fill_by_positions e v ps s1)"

definition smart_fill_field ::
  "env \<Rightarrow> string \<Rightarrow> string \<Rightarrow> string list \<Rightarrow> (int \<times> int) list \<Rightarrow> st \<Rightarrow> (error + bool) \<times> st" where
  "smart_fill_field e field_name v label_options fallback_positions s =
     (if dry_run e then (Inr True, s)
      else
        (case fill_by_labels e v label_options s of
           (Inl err, s1) \<Rightarrow> (Inl err, s1)
         | (Inr ok, s1) \<Rightarrow>
             if ok then (Inr True, s1) else fill_by_positions e v fallback_positions s1))"

subsection \<open>\<^verbatim>\<open>_retry_operation\<close>\<close>

text \<open>
  The \<^verbatim>\<open>for attempt in range(self.max_retries)\<close> loop, from \<open>attempt\<close> on with \<open>k\<close> rounds
  left. The first component of the result is what the function returns (\<open>Inr None\<close> is
  Python's \<^verbatim>\<open>None\<close>, when the loop body never ran) or raises. The second is the log of
  the calls to the operation, in order: what each call returned or raised.
\<close>

fun retry_loop ::
  "env \<Rightarrow> (st \<Rightarrow> (error + 'a) \<times> st) \<Rightarrow> nat \<Rightarrow> nat \<Rightarrow> st
     \<Rightarrow> ((error + 'a option) \<times> (error + 'a) list) \<times> st" where
  "retry_loop e operation attempt 0 s = ((Inr None, []), s)"
| "retry_loop e operation attempt (Suc k) s =
     (case operation s of
        (Inr v, s1) \<Rightarrow> ((Inr (Some v), [Inr v]), s1)
      | (Inl err, s1) \<Rightarrow>
          if int attempt = max_retries e - 1 then ((Inl err, [Inl err]), s1)
          else
            (case retry_loop e operation (Suc attempt) k
                    (sleep (retry_delay e * (attempt + 1)) s1) of
               ((r, calls), s2) \<Rightarrow> ((r, Inl err # calls), s2)))"

definition retry_operation ::
  "env \<Rightarrow> (st \<Rightarrow> (error + 'a) \<times> st) \<Rightarrow> st
     \<Rightarrow> ((error + 'a option) \<times> (error + 'a) list) \<times> st" where
  "retry_operation e operation s = retry_loop e operation 0 (nat (max_retries e)) s"

subsection \<open>The steps of the wizard\<close>

definition validate_prerequisites :: "env \<Rightarrow> st \<Rightarrow> bool \<times> st" where
  "validate_prerequisites e s =
     (if \<not> pywinauto_available e then (False, s)
      else if \<not> msi_exists e then (False, s)
      else if \<not> starts_with ''XPG_'' (tag (cfg e))
        then (False, if \<not> dry_run e then run_events e [AdminCheck] s else s)
      else (True, if \<not> dry_run e then run_events e [AdminCheck] s else s))"

definition minimize_all_windows :: "env \<Rightarrow> st \<Rightarrow> st" where
  "minimize_all_windows e s =
     (if dry_run e then s
      else if pyautogui_available e then
        (case hotkey e ''win'' ''d'' s of
           (Inl err, s1) \<Rightarrow> s1
         | (Inr u, s1) \<Rightarrow> sleep 1000 s1)
      else s)"

definition launch_installer :: "env \<Rightarrow> st \<Rightarrow> bool \<times> st" where
  "launch_installer e s =
     (if dry_run e then (True, s)
      else
        (let s1 = take_screenshot e ''before_launch'' (minimize_all_windows e s) in
         if popen_raises (now e s1) then (False, run_events e [Popen (msi_path e)] s1)
         else
           (let s2 = take_screenshot e ''after_launch''
                       (sleep 5000 (run_events e [Popen (msi_path e)] s1)) in
            if connect_ok (now e s2)
            then (True, print_window_text e (run_events e [ConnectApp] s2))
            else (True, run_events e [ConnectApp] s2))))"

definition next_text_options :: "string list" where
  "next_text_options = [''&Next >'', ''Next >'', ''Next'', ''Suivant >'', ''Suivant'']"

definition handle_welcome_screen :: "env \<Rightarrow> st \<Rightarrow> (error + bool) \<times> st" where
  "handle_welcome_screen e s =
     (if dry_run e then (Inr True, s)
      else
        (case click_with_win32gui e ''Next''
                (print_window_text e (take_screenshot e ''welcome_screen'' s)) of
           (ok, s1) \<Rightarrow>
             if ok then (Inr True, s1)
             else smart_find_and_click e ''Next button (welcome screen)'' next_text_options [] s1))"

definition accept_text_options :: "string list" where
  "accept_text_options =
     [''I accept'', ''J'' @ [CHR 0x27] @ ''accepte'', ''accept'', ''accepte'']"

text \<open>The part of \<^verbatim>\<open>handle_license_agreement\<close> after the win32gui attempt.\<close>

definition license_fallback :: "env \<Rightarrow> st \<Rightarrow> (error + bool) \<times> st" where
  "license_fallback e s =
     (case smart_find_and_click e ''I accept radio button'' accept_text_options [] s of
        (Inl err, s1) \<Rightarrow> (Inl err, s1)
      | (Inr ok, s1) \<Rightarrow>
          smart_find_and_click e ''Next button (license screen)'' next_text_options []
            (if ok then sleep 500 s1 else s1))"

definition handle_license_agreement :: "env \<Rightarrow> st \<Rightarrow> (error + bool) \<times> st" where
  "handle_license_agreement e s =
     (if dry_run e then (Inr True, s)
      else
        (case click_with_win32gui e ''accept''
                (print_window_text e (take_screenshot e ''license_agreement'' s)) of
           (accepted, s1) \<Rightarrow>
             if accepted then
               (case click_with_win32gui e ''Next'' (sleep 500 s1) of
                  (ok, s2) \<Rightarrow> if ok then (Inr True, s2) else license_fallback e s2)
             else license_fallback e s1))"

definition server_labels :: "string list" where
  "server_labels = [''Server address'', ''Adresse serveur'', ''Server'', ''Serveur'']"

definition tag_labels :: "string list" where
  "tag_labels = [''Tag'', [CHR 0xC9] @ ''tiquette'']"

definition license_labels :: "string list" where
  "license_labels =
     [''License key'', ''Cl'' @ [CHR 0xE9] @ '' de licence'', ''License'', ''Licence'']"

text \<open>The part of \<^verbatim>\<open>handle_activation_information\<close> after the win32gui attempt.\<close>

definition activation_fallback :: "env \<Rightarrow> st \<Rightarrow> (error + bool) \<times> st" where
  "activation_fallback e s =
     (case smart_fill_field e ''Server address'' (server_address (cfg e)) server_labels [] s of
        (Inl err, s1) \<Rightarrow> (Inl err, s1)
      | (Inr r1, s1) \<Rightarrow>
          (case smart_fill_field e ''Tag'' (tag (cfg e)) tag_labels [] s1 of
             (Inl err, s2) \<Rightarrow> (Inl err, s2)
           | (Inr r2, s2) \<Rightarrow>
               (case smart_fill_field e ''License key'' (license_key (cfg e)) license_labels [] s2 of
                  (Inl err, s3) \<Rightarrow> (Inl err, s3)
                | (Inr r3, s3) \<Rightarrow>
                    smart_find_and_click e ''Next button (activation screen)''
                      next_text_options [] (sleep 1000 s3))))"

definition handle_activation_information :: "env \<Rightarrow> st \<Rightarrow> (error + bool) \<times> st" where
  "handle_activation_information e s =
     (if dry_run e then (Inr True, s)
      else
        (case fill_field_with_win32gui e ''server'' (server_address (cfg e))
                (print_window_text e (take_screenshot e ''activation_information'' s)) of
           (f1, s1) \<Rightarrow>
             (case fill_field_with_win32gui e ''tag'' (tag (cfg e)) s1 of
                (f2, s2) \<Rightarrow>
                  (case fill_field_with_win32gui e ''license'' (license_key (cfg e)) s2 of
                     (f3, s3) \<Rightarrow>
                       if f1 \<and> f2 \<and> f3 then
                         (case click_with_win32gui e ''Next'' (sleep 500 s3) of
                            (ok, s4) \<Rightarrow>
                              if ok then (Inr True, s4) else activation_fallback e s4)
                       else activation_fallback e s3))))"

definition install_text_options :: "string list" where
  "install_text_options = [''Install'', ''Installer'', ''Install >'']"

definition handle_installation :: "env \<Rightarrow> st \<Rightarrow> (error + bool) \<times> st" where
  "handle_installation e s =
     (if dry_run e then (Inr True, s)
      else
        (case click_with_win32gui e ''Install'' (take_screenshot e ''installation_screen'' s) of
           (ok, s1) \<Rightarrow>
             if ok then (Inr True, s1)
             else smart_find_and_click e ''Install button'' install_text_options [] s1))"

subsection \<open>\<^verbatim>\<open>wait_for_completion\<close>\<close>

text \<open>
  The polling loop, with \<^verbatim>\<open>completion_timeout = 180\<close> seconds. \<open>start\<close> is the clock when the
  loop was entered. The result is \<open>True\<close> when Finish or Close was clicked and \<open>False\<close> when
  the time ran out. Nothing in the body raises, so the handler inside the loop is never
  entered.
\<close>

function wait_loop :: "env \<Rightarrow> nat \<Rightarrow> st \<Rightarrow> bool \<times> st" where
  "wait_loop e start s =
     (if clock s - start < 180000 then
        (if fst (click_with_win32gui e ''Finish'' (take_screenshot e ''completion_check'' s))
         then (True, snd (click_with_win32gui e ''Finish''
                            (take_screenshot e ''completion_check'' s)))
         else if fst (click_with_win32gui e ''Close''
                        (snd (click_with_win32gui e ''Finish''
                                (take_screenshot e ''completion_check'' s))))
         then (True, snd (click_with_win32gui e ''Close''
                            (snd (click_with_win32gui e ''Finish''
                                    (take_screenshot e ''completion_check'' s)))))
         else wait_loop e start
                (sleep 2000
                   (snd (click_with_win32gui e ''Close''
                           (snd (click_with_win32gui e ''Finish''
                                   (take_screenshot e ''completion_check'' s)))))))
      else (False, s))"
  by pat_completeness auto
termination
  by (relation "measure (\<lambda>(e, start, s). 180000 + start - clock s)")
     (auto simp: sleep_def click_with_win32gui_def take_screenshot_def run_events_def
           split: prod.splits)

declare wait_loop.simps [simp del]

definition wait_for_completion :: "env \<Rightarrow> st \<Rightarrow> bool \<times> st" where
  "wait_for_completion e s =
     (if dry_run e then (True, s)
      else
        (case wait_loop e (clock s) s of
           (finished, s1) \<Rightarrow>
             if finished then (True, s1)
             else if pyautogui_available e then
               (case hotkey e ''alt'' ''f'' s1 of
                  (Inl err, s2) \<Rightarrow> (False, s2)
                | (Inr u, s2) \<Rightarrow> (True, sleep 1000 s2))
             else (False, s1)))"

subsection \<open>\<^verbatim>\<open>verify_installation\<close>\<close>

text \<open>Whether a process is entered in \<^verbatim>\<open>tehtris_agents\<close>.\<close>

definition is_tehtris_agent :: "string \<Rightarrow> string \<Rightarrow> version_probe \<Rightarrow> bool" where
  "is_tehtris_agent name exe v =
     (str_in ''agent'' (lower name) \<and> exe \<noteq> []
      \<and> (case v of
           NoWin32api \<Rightarrow> False
         | VersionRaises \<Rightarrow> str_in ''tehtris'' (lower exe)
         | Description d \<Rightarrow> d \<noteq> [] \<and> str_in ''tehtris'' (lower d)))"

text \<open>The loop over the processes; \<open>None\<close> when an exception leaves it.\<close>

fun tehtris_agents :: "proc_probe list \<Rightarrow> nat list option" where
  "tehtris_agents [] = Some []"
| "tehtris_agents (ProcGone # ps) = tehtris_agents ps"
| "tehtris_agents (ProcBroken # ps) = None"
| "tehtris_agents (ProcInfo pid name exe v # ps) =
     (case tehtris_agents ps of
        None \<Rightarrow> None
      | Some found \<Rightarrow> Some ((if is_tehtris_agent name exe v then [pid] else []) @ found))"

definition verify_installation :: "env \<Rightarrow> st \<Rightarrow> bool \<times> st" where
  "verify_installation e s =
     (if dry_run e then (True, s)
      else if \<not> psutil_available e then (True, s)
      else
        (case tehtris_agents (process_iter e) of
           None \<Rightarrow> (True, run_events e [ProcessScan] s)
         | Some found \<Rightarrow>
             if found \<noteq> [] then (True, run_events e [ProcessScan] s)
             else (True, run_events e [ProcessScan] s)))"

subsection \<open>\<^verbatim>\<open>run_installation\<close>\<close>

text \<open>An exception of a step is caught by the handler of \<^verbatim>\<open>run_installation\<close>: \<open>False\<close>.\<close>

definition run_installation :: "env \<Rightarrow> st \<Rightarrow> bool \<times> st" where
  "run_installation e s =
     (case validate_prerequisites e s of
        (ok0, s0) \<Rightarrow>
     if \<not> ok0 then (False, s0) else
     (case launch_installer e s0 of
        (ok1, s1) \<Rightarrow>
     if \<not> ok1 then (False, s1) else
     (case handle_welcome_screen e (sleep 500 s1) of
        (r2, s2) \<Rightarrow>
     if r2 \<noteq> Inr True then (False, s2) else
     (case handle_license_agreement e (sleep 500 s2) of
        (r3, s3) \<Rightarrow>
     if r3 \<noteq> Inr True then (False, s3) else
     (case handle_activation_information e (sleep 500 s3) of
        (r4, s4) \<Rightarrow>
     if r4 \<noteq> Inr True then (False, s4) else
     (case handle_installation e (sleep 500 s4) of
        (r5, s5) \<Rightarrow>
     if r5 \<noteq> Inr True then (False, s5) else
     (case wait_for_completion e s5 of
        (ok6, s6) \<Rightarrow>
     if \<not> ok6 then (False, s6) else
     (case verify_installation e s6 of
        (ok7, s7) \<Rightarrow> (True, s7)))))))))"

subsection \<open>Concrete worlds\<close>

text \<open>
  A desktop with no window and an empty screen, on which every pointer and keyboard call
  succeeds; an installer instance as \<^verbatim>\<open>__init__\<close> builds it, facing that desktop for
  ever; and the state before anything has run.
\<close>

definition quiet_snapshot :: snapshot where
  "quiet_snapshot =
     \<lparr>latency = 0, win32_import_ok = True, enum_visited = [], enum_raises = False,
      find_window = None, ocr_data = Some [], contours = (\<lambda>r. Some []),
      click_result = (\<lambda>x y. Inr True), hotkey_raises = False, write_raises = False,
      popen_raises = False, connect_ok = True\<rparr>"

definition demo_env :: env where
  "demo_env =
     \<lparr>dry_run = False, pywinauto_available = True, pyautogui_available = True,
      msi_path = ''TEHTRIS_EDR_2.0.0_Windows_x86_64_MS-28.msi'', msi_exists = True,
      cfg = default_config, max_retries = 3, retry_delay = 2000,
      timeline = (\<lambda>k. quiet_snapshot), psutil_available = True, process_iter = []\<rparr>"

definition initial_state :: st where
  "initial_state = \<lparr>trace = [], tick = 0, clock = 0\<rparr>"

text \<open>
  The licence screen: a TEHTRIS window with the buttons Do not accept, I accept and Next.
\<close>

definition button :: "nat \<Rightarrow> string \<Rightarrow> control" where
  "button h text =
     \<lparr>c_hwnd = h, c_faulty = False, c_visible = True, c_iswindow = True, c_text = text,
      c_class = ''Button'', c_rect = (0, 0, 0, 0), c_post_raises = False,
      c_fill_fault = None\<rparr>"

definition setup_window :: "nat \<Rightarrow> control list \<Rightarrow> window" where
  "setup_window h cs =
     \<lparr>w_hwnd = h, w_faulty = False, w_visible = True, w_iswindow = True,
      w_title = ''TEHTRIS EDR Setup'', w_children = cs, w_enum_raises = False\<rparr>"

definition license_env :: env where
  "license_env =
     demo_env\<lparr>timeline := (\<lambda>k. quiet_snapshot\<lparr>enum_visited :=
       [setup_window 1
          [button 11 ''Do not accept'', button 12 ''I &accept'', button 13 ''&Next >'']]\<rparr>)\<rparr>"

text \<open>
  Two TEHTRIS windows, the first with one edit control and the second with three.
\<close>

definition edit_box :: "nat \<Rightarrow> int \<times> int \<times> int \<times> int \<Rightarrow> control" where
  "edit_box h rect =
     \<lparr>c_hwnd = h, c_faulty = False, c_visible = True, c_iswindow = True, c_text = [],
      c_class = ''Edit'', c_rect = rect, c_post_raises = False, c_fill_fault = None\<rparr>"

definition two_window_env :: env where
  "two_window_env =
     demo_env\<lparr>timeline := (\<lambda>k. quiet_snapshot\<lparr>enum_visited :=
       [setup_window 1 [edit_box 11 (100, 100, 300, 120)],
        setup_window 2
          [edit_box 21 (100, 100, 300, 120), edit_box 22 (100, 140, 300, 160),
           edit_box 23 (100, 180, 300, 200)]]\<rparr>)\<rparr>"

text \<open>
  The same world with the text of every child control replaced (\<open>f\<close> gives the new
  text of a control).
\<close>

definition with_texts :: "(control \<Rightarrow> string) \<Rightarrow> window \<Rightarrow> window" where
  "with_texts f w = w\<lparr>w_children := map (\<lambda>c. c\<lparr>c_text := f c\<rparr>) (w_children w)\<rparr>"

definition with_control_texts :: "(control \<Rightarrow> string) \<Rightarrow> env \<Rightarrow> env" where
  "with_control_texts f e =
     e\<lparr>timeline := (\<lambda>k. (timeline e k)
          \<lparr>enum_visited := map (with_texts f) (enum_visited (timeline e k)),
           find_window := map_option (with_texts f) (find_window (timeline e k))\<rparr>)\<rparr>"

text \<open>
  Two operations to retry: one that always raises (another exception once six seconds have
  passed), and one that returns the time once \<open>t\<close> milliseconds have passed.
\<close>

definition flaky :: "st \<Rightarrow> (error + nat) \<times> st" where
  "flaky s = (if clock s < 6000 then Inl (Exc ''not ready'') else Inl (Exc ''gave up''), s)"

definition ready_after :: "nat \<Rightarrow> st \<Rightarrow> (error + nat) \<times> st" where
  "ready_after t s = (if clock s < t then Inl (Exc ''not ready'') else Inr (clock s), s)"

text \<open>
  The events that read the desktop or the system, and the events that act on it. A sleep
  is neither.
\<close>

fun is_probe :: "event \<Rightarrow> bool" where
  "is_probe (Screenshot n) = True"
| "is_probe WindowTextDump = True"
| "is_probe EnumWindows = True"
| "is_probe (OcrScan t) = True"
| "is_probe ColorScan = True"
| "is_probe ConnectApp = True"
| "is_probe ProcessScan = True"
| "is_probe AdminCheck = True"
| "is_probe _ = False"

fun is_actuation :: "event \<Rightarrow> bool" where
  "is_actuation (PostClick h ok) = True"
| "is_actuation (FocusClick x y) = True"
| "is_actuation (SetText h t) = True"
| "is_actuation (TabKey h d) = True"
| "is_actuation (ClickCoordinates x y org r) = True"
| "is_actuation (Hotkey a b ok) = True"
| "is_actuation (WriteText t) = True"
| "is_actuation (Popen p) = True"
| "is_actuation _ = False"

text \<open>The keyboard shortcuts among the events.\<close>

fun is_keyboard :: "event \<Rightarrow> bool" where
  "is_keyboard (Hotkey a b ok) = True"
| "is_keyboard _ = False"






text \<open>
  The strategy an event belongs to: 1 for the OCR text search, 2 for the fallback
  coordinates, 3 for the keyboard shortcut, 0 for the native handles and everything else.
  \<open>strategy_order\<close>: the events, sleeps apart, come in the order of their strategies.
\<close>

fun stage :: "event \<Rightarrow> nat" where
  "stage (OcrScan t) = 1"
| "stage (ClickCoordinates x y (FoundByText t) r) = 1"
| "stage (ClickCoordinates x y FallbackPosition r) = 2"
| "stage (Hotkey a b ok) = 3"
| "stage _ = 0"

definition strategy_order :: "event list \<Rightarrow> bool" where
  "strategy_order evs = sorted (map stage (filter (\<lambda>ev. \<not> is_sleep ev) evs))"

text \<open>
  The texts searched by OCR and the fallback coordinates clicked (with the result), in the
  order of the events; and the events that each stage of \<^verbatim>\<open>smart_find_and_click\<close> can make.
\<close>

fun ocr_texts :: "event list \<Rightarrow> string list" where
  "ocr_texts [] = []"
| "ocr_texts (OcrScan t # evs) = t # ocr_texts evs"
| "ocr_texts (ev # evs) = ocr_texts evs"

fun fallback_clicks :: "event list \<Rightarrow> (int \<times> int \<times> (error + bool)) list" where
  "fallback_clicks [] = []"
| "fallback_clicks (ClickCoordinates x y FallbackPosition r # evs) = (x, y, r) # fallback_clicks evs"
| "fallback_clicks (ev # evs) = fallback_clicks evs"

definition ocr_log :: "event list \<Rightarrow> bool" where
  "ocr_log evs = (\<forall>ev\<in>set evs. (\<exists>t. ev = OcrScan t) \<or> (\<exists>x y t r. ev = ClickCoordinates x y (FoundByText t) r))"

definition fb_log :: "event list \<Rightarrow> bool" where
  "fb_log evs = (\<forall>ev\<in>set evs. is_sleep ev \<or> (\<exists>x y r. ev = ClickCoordinates x y FallbackPosition r))"

definition kb_log :: "event list \<Rightarrow> bool" where
  "kb_log evs = (\<forall>ev\<in>set evs. is_sleep ev \<or> (\<exists>a b ok. ev = Hotkey a b ok))"



section \<open>Properties\<close>

subsection \<open>The verification step is advisory\<close>

text \<open>
  Nothing but \<^verbatim>\<open>verify_installation\<close> reads what psutil answers: every other function
  is the same after the answers of psutil have been replaced.
\<close>

lemma now_verif [simp]: "now (e\<lparr>psutil_available := p, process_iter := ps\<rparr>) = now e"
  by (rule ext) (simp add: now_def)

lemma run_events_verif [simp]:
  "run_events (e\<lparr>psutil_available := p, process_iter := ps\<rparr>) = run_events e"
  by (rule ext, rule ext) (simp add: run_events_def)

lemma click_with_win32gui_verif [simp]:
  "click_with_win32gui (e\<lparr>psutil_available := p, process_iter := ps\<rparr>) = click_with_win32gui e"
  by (rule ext, rule ext) (simp add: click_with_win32gui_def)

lemma fill_field_with_win32gui_verif [simp]:
  "fill_field_with_win32gui (e\<lparr>psutil_available := p, process_iter := ps\<rparr>)
     = fill_field_with_win32gui e"
  by (rule ext, rule ext, rule ext) (simp add: fill_field_with_win32gui_def)

lemma take_screenshot_verif [simp]:
  "take_screenshot (e\<lparr>psutil_available := p, process_iter := ps\<rparr>) = take_screenshot e"
  by (rule ext, rule ext) (simp add: take_screenshot_def)

lemma print_window_text_verif [simp]:
  "print_window_text (e\<lparr>psutil_available := p, process_iter := ps\<rparr>) = print_window_text e"
  by (rule ext) (simp add: print_window_text_def)

lemma find_text_on_screen_verif [simp]:
  "find_text_on_screen (e\<lparr>psutil_available := p, process_iter := ps\<rparr>) = find_text_on_screen e"
  by (rule ext, rule ext) (simp add: find_text_on_screen_def)

lemma click_coordinates_verif [simp]:
  "click_coordinates (e\<lparr>psutil_available := p, process_iter := ps\<rparr>) = click_coordinates e"
  by (rule ext, rule ext, rule ext, rule ext) (simp add: click_coordinates_def)

lemma hotkey_verif [simp]:
  "hotkey (e\<lparr>psutil_available := p, process_iter := ps\<rparr>) = hotkey e"
  by (rule ext, rule ext, rule ext) (simp add: hotkey_def)

lemma write_text_verif [simp]:
  "write_text (e\<lparr>psutil_available := p, process_iter := ps\<rparr>) = write_text e"
  by (rule ext, rule ext) (simp add: write_text_def)

lemma try_search_texts_verif [simp]:
  "try_search_texts (e\<lparr>psutil_available := p, process_iter := ps\<rparr>) ts s = try_search_texts e ts s"
  by (induction ts arbitrary: s) (simp_all split: prod.splits option.splits sum.splits)

lemma try_text_options_verif [simp]:
  "try_text_options (e\<lparr>psutil_available := p, process_iter := ps\<rparr>) ts s = try_text_options e ts s"
  by (induction ts arbitrary: s) (simp_all split: prod.splits sum.splits)

lemma try_fallback_positions_verif [simp]:
  "try_fallback_positions (e\<lparr>psutil_available := p, process_iter := ps\<rparr>) ps' s
     = try_fallback_positions e ps' s"
  by (induction ps' arbitrary: s) (auto split: prod.splits sum.splits)

lemma try_keyboard_verif [simp]:
  "try_keyboard (e\<lparr>psutil_available := p, process_iter := ps\<rparr>) = try_keyboard e"
  by (rule ext, rule ext) (simp add: try_keyboard_def cong: option.case_cong)

lemma smart_find_and_click_verif [simp]:
  "smart_find_and_click (e\<lparr>psutil_available := p, process_iter := ps\<rparr>) = smart_find_and_click e"
  by (rule ext, rule ext, rule ext, rule ext) (simp add: smart_find_and_click_def cong: prod.case_cong sum.case_cong if_cong)

lemma find_input_field_by_label_verif [simp]:
  "find_input_field_by_label (e\<lparr>psutil_available := p, process_iter := ps\<rparr>)
     = find_input_field_by_label e"
  by (rule ext, rule ext) (simp add: find_input_field_by_label_def)

lemma select_all_and_write_verif [simp]:
  "select_all_and_write (e\<lparr>psutil_available := p, process_iter := ps\<rparr>) = select_all_and_write e"
  by (rule ext, rule ext) (simp add: select_all_and_write_def cong: prod.case_cong sum.case_cong)

lemma fill_by_labels_verif [simp]:
  "fill_by_labels (e\<lparr>psutil_available := p, process_iter := ps\<rparr>) v ls s = fill_by_labels e v ls s"
  by (induction ls arbitrary: s) (simp_all split: prod.splits option.splits sum.splits)

lemma fill_by_positions_verif [simp]:
  "fill_by_positions (e\<lparr>psutil_available := p, process_iter := ps\<rparr>) v ps' s
     = fill_by_positions e v ps' s"
  by (induction ps' arbitrary: s) (auto split: prod.splits sum.splits)

lemma smart_fill_field_verif [simp]:
  "smart_fill_field (e\<lparr>psutil_available := p, process_iter := ps\<rparr>) = smart_fill_field e"
  by (rule ext, rule ext, rule ext, rule ext, rule ext) (simp add: smart_fill_field_def cong: prod.case_cong sum.case_cong if_cong)

lemma wait_loop_verif [simp]:
  "wait_loop (e\<lparr>psutil_available := p, process_iter := ps\<rparr>) start s = wait_loop e start s"
proof (induction e start s rule: wait_loop.induct)
  case (1 e start s)
  show ?case
    using 1
    by (simp add: wait_loop.simps [of "e\<lparr>psutil_available := p, process_iter := ps\<rparr>" start s]
        wait_loop.simps [of e start s])
qed

lemma steps_verif [simp]:
  "validate_prerequisites (e\<lparr>psutil_available := p, process_iter := ps\<rparr>) = validate_prerequisites e"
  "launch_installer (e\<lparr>psutil_available := p, process_iter := ps\<rparr>) = launch_installer e"
  "handle_welcome_screen (e\<lparr>psutil_available := p, process_iter := ps\<rparr>) = handle_welcome_screen e"
  "handle_license_agreement (e\<lparr>psutil_available := p, process_iter := ps\<rparr>) = handle_license_agreement e"
  "handle_activation_information (e\<lparr>psutil_available := p, process_iter := ps\<rparr>)
     = handle_activation_information e"
  "handle_installation (e\<lparr>psutil_available := p, process_iter := ps\<rparr>) = handle_installation e"
  "wait_for_completion (e\<lparr>psutil_available := p, process_iter := ps\<rparr>) = wait_for_completion e"
  by (rule ext;
      simp add: validate_prerequisites_def launch_installer_def minimize_all_windows_def
        handle_welcome_screen_def handle_license_agreement_def license_fallback_def
        handle_activation_information_def activation_fallback_def handle_installation_def
        wait_for_completion_def
        cong: prod.case_cong sum.case_cong if_cong)+

text \<open>
  Claim C7. The Verified step is advisory only. Whatever the process check meets (dry
  run, psutil missing, a process found, none found, a process that cannot be read, any
  exception), \<^verbatim>\<open>verify_installation\<close> returns \<open>True\<close>; and the result of
  \<^verbatim>\<open>run_installation\<close> is the same whatever psutil answers, so the run never fails because
  of the verification step.
\<close>

theorem verify_installation_advisory:
  "fst (verify_installation e s) = True
   \<and> fst (run_installation (e\<lparr>psutil_available := p, process_iter := ps\<rparr>) s)
       = fst (run_installation e s)"
  by (simp add: verify_installation_def run_installation_def split: option.splits prod.splits)

theorem verify_installation_advisory_witness:
  "fst (verify_installation (demo_env\<lparr>process_iter := [ProcBroken]\<rparr>) initial_state) = True
   \<and> fst (run_installation
            (demo_env\<lparr>psutil_available := False, process_iter := [ProcGone, ProcBroken]\<rparr>)
            initial_state)
       = fst (run_installation demo_env initial_state)"
  using verify_installation_advisory
          [where e = "demo_env\<lparr>process_iter := [ProcBroken]\<rparr>" and s = initial_state]
        verify_installation_advisory
          [where e = demo_env and s = initial_state and p = False
             and ps = "[ProcGone, ProcBroken]"]
  by simp

subsection \<open>What the native-handle strategy clicks\<close>

lemma find_button_matches:
  "find (button_matches q) cs = Some c \<Longrightarrow> c \<in> set cs \<and> button_matches q c"
  by (induction cs) (auto split: if_splits)

lemma click_in_windows_targets:
  "ev \<in> set (snd (click_in_windows q ws)) \<Longrightarrow>
   \<exists>w\<in>set ws. \<exists>c\<in>set (w_children w). button_matches q c \<and>
      (\<exists>ok. ev = PostClick (c_hwnd c) ok)"
proof (induction ws)
  case Nil
  then show ?case by simp
next
  case (Cons w ws)
  show ?case
  proof (cases "w_enum_raises w")
    case True
    with Cons show ?thesis by auto
  next
    case False
    show ?thesis
    proof (cases "find (button_matches q) (w_children w)")
      case None
      with False Cons show ?thesis by auto
    next
      case (Some c)
      then have c: "c \<in> set (w_children w)" "button_matches q c"
        using find_button_matches by blast+
      show ?thesis
      proof (cases "c_post_raises c")
        case True
        with False Some Cons.prems
        have "ev = PostClick (c_hwnd c) False \<or> ev \<in> set (snd (click_in_windows q ws))"
          by (auto split: prod.splits)
        then show ?thesis
          using c Cons.IH by auto
      next
        case no: False
        with False Some Cons.prems have "ev = PostClick (c_hwnd c) True"
          by simp
        then show ?thesis using c by auto
      qed
    qed
  qed
qed

lemma click_events_targets:
  "ev \<in> set (snd (click_events snap q)) \<Longrightarrow>
   ev = EnumWindows \<or>
   (\<exists>w\<in>set (tehtris_windows snap). \<exists>c\<in>set (w_children w). button_matches q c \<and>
      (\<exists>ok. ev = PostClick (c_hwnd c) ok))"
  using click_in_windows_targets [of ev q "tehtris_windows snap"]
  by (auto simp: click_events_def split: if_splits prod.splits)

lemma click_with_win32gui_trace:
  "trace (snd (click_with_win32gui e q s)) = trace s @ snd (click_events (now e s) q)"
  by (simp add: click_with_win32gui_def run_events_def split: prod.splits)

lemma do_not_accept: "c_text c = ''Do not accept'' \<Longrightarrow> \<not> button_matches ''accept'' c"
  by (simp add: button_matches_def clean_def strip_amp_def lower_def lower_char_def)


lemma trace_initial_state: "trace initial_state = []"
  by (simp add: initial_state_def)

text \<open>
  Claim C9. \<^verbatim>\<open>click_with_win32gui\<close> posts a click only to a child control of a TEHTRIS
  window, of class Button, whose text, ampersands removed and in lower case, contains the
  query (ampersands removed, in lower case) and does not contain \<open>not\<close>. In particular,
  with the query \<open>accept\<close>, a handle that only belongs to buttons labelled
  \<open>Do not accept\<close> is never clicked.
\<close>

theorem click_with_win32gui_targets:
  "(PostClick h ok
      \<in> set (drop (length (trace s)) (trace (snd (click_with_win32gui e button_text s))))
    \<longrightarrow> (\<exists>w\<in>set (tehtris_windows (now e s)). \<exists>c\<in>set (w_children w).
           c_hwnd c = h \<and> c_class c = ''Button''
           \<and> str_in (clean button_text) (clean (c_text c))
           \<and> \<not> str_in ''not'' (clean (c_text c))))
   \<and> ((\<forall>w\<in>set (tehtris_windows (now e s)). \<forall>c\<in>set (w_children w).
          c_hwnd c = h \<longrightarrow> c_text c = ''Do not accept'')
       \<longrightarrow> PostClick h ok
             \<notin> set (drop (length (trace s)) (trace (snd (click_with_win32gui e ''accept'' s)))))"
proof (intro conjI impI)
  assume "PostClick h ok
      \<in> set (drop (length (trace s)) (trace (snd (click_with_win32gui e button_text s))))"
  then have "PostClick h ok \<in> set (snd (click_events (now e s) button_text))"
    by (simp add: click_with_win32gui_trace)
  from click_events_targets [OF this]
  show "\<exists>w\<in>set (tehtris_windows (now e s)). \<exists>c\<in>set (w_children w).
           c_hwnd c = h \<and> c_class c = ''Button''
           \<and> str_in (clean button_text) (clean (c_text c))
           \<and> \<not> str_in ''not'' (clean (c_text c))"
    by (auto simp: button_matches_def)
next
  assume all: "\<forall>w\<in>set (tehtris_windows (now e s)). \<forall>c\<in>set (w_children w).
          c_hwnd c = h \<longrightarrow> c_text c = ''Do not accept''"
  show "PostClick h ok
      \<notin> set (drop (length (trace s)) (trace (snd (click_with_win32gui e ''accept'' s))))"
  proof
    assume "PostClick h ok
      \<in> set (drop (length (trace s)) (trace (snd (click_with_win32gui e ''accept'' s))))"
    then have "PostClick h ok \<in> set (snd (click_events (now e s) ''accept''))"
      by (simp add: click_with_win32gui_trace)
    from click_events_targets [OF this] obtain w c where
      "w \<in> set (tehtris_windows (now e s))" "c \<in> set (w_children w)"
      "button_matches ''accept'' c" "c_hwnd c = h"
      by auto
    with all do_not_accept show False by blast
  qed
qed

theorem click_with_win32gui_targets_witness:
  "trace (snd (click_with_win32gui license_env ''accept'' initial_state))
     = [EnumWindows, PostClick 12 True]
   \<and> (\<exists>w\<in>set (tehtris_windows (now license_env initial_state)). \<exists>c\<in>set (w_children w).
         c_hwnd c = 12 \<and> c_class c = ''Button''
         \<and> str_in (clean ''accept'') (clean (c_text c))
         \<and> \<not> str_in ''not'' (clean (c_text c)))
   \<and> PostClick 11 True
        \<notin> set (drop (length (trace initial_state))
                 (trace (snd (click_with_win32gui license_env ''accept'' initial_state))))"
proof -
  have t: "trace (snd (click_with_win32gui license_env ''accept'' initial_state))
     = [EnumWindows, PostClick 12 True]"
    by code_simp
  have h: "PostClick 12 True
      \<in> set (drop (length (trace initial_state))
               (trace (snd (click_with_win32gui license_env ''accept'' initial_state))))"
    by (simp add: t trace_initial_state)
  have a: "\<forall>w\<in>set (tehtris_windows (now license_env initial_state)). \<forall>c\<in>set (w_children w).
          c_hwnd c = 11 \<longrightarrow> c_text c = ''Do not accept''"
    by code_simp
  from click_with_win32gui_targets
         [where e = license_env and s = initial_state and h = 12 and ok = True
            and button_text = "''accept''"]
       click_with_win32gui_targets
         [where e = license_env and s = initial_state and h = 11 and ok = True]
       t h a
  show ?thesis by blast
qed

subsection \<open>The field filled by the native-handle strategy\<close>

lemma upto_call_subset: "set (upto_call k evs) \<subseteq> set evs"
  by (induction k evs rule: upto_call.induct) auto

lemma fill_control_subset: "set (snd (fill_control p c v)) \<subseteq> set (fill_calls p c v)"
  using upto_call_subset by (auto simp: fill_control_def split: option.splits)

lemma fill_in_windows_events:
  "ev \<in> set (snd (fill_in_windows p idx v ws)) \<Longrightarrow>
   \<exists>w\<in>set ws. idx < length (edit_controls w)
      \<and> ev \<in> set (fill_calls p (edit_controls w ! idx) v)"
proof (induction ws)
  case Nil
  then show ?case by simp
next
  case (Cons w ws)
  show ?case
  proof (cases "\<not> w_enum_raises w \<and> edit_controls w \<noteq> [] \<and> idx < length (edit_controls w)")
    case False
    with Cons show ?thesis by (auto split: if_splits)
  next
    case True
    with Cons.prems
    have "ev \<in> set (snd (fill_control p (edit_controls w ! idx) v))
          \<or> ev \<in> set (snd (fill_in_windows p idx v ws))"
      by (auto split: prod.splits if_splits)
    then show ?thesis
      using True Cons.IH fill_control_subset by auto
  qed
qed

lemma fill_in_windows_out_of_range:
  "\<forall>w\<in>set ws. w_enum_raises w \<or> length (edit_controls w) \<le> idx \<Longrightarrow>
   fill_in_windows p idx v ws = (False, [])"
  by (induction ws) auto

lemma fill_field_with_win32gui_trace:
  "trace (snd (fill_field_with_win32gui e l v s))
     = trace s @ snd (fill_events (now e s) (pyautogui_available e) l v)"
  by (simp add: fill_field_with_win32gui_def run_events_def split: prod.splits)

lemma fill_events_cases:
  "ev \<in> set (snd (fill_events snap p l v)) \<Longrightarrow>
   ev = EnumWindows \<or> ev \<in> set (snd (fill_in_windows p (field_index l) v (tehtris_windows snap)))"
  by (auto simp: fill_events_def split: if_splits prod.splits)


lemma is_edit_control_text [simp]: "is_edit_control (c\<lparr>c_text := t\<rparr>) = is_edit_control c"
  by (simp add: is_edit_control_def)

lemma edit_controls_with_texts:
  "edit_controls (with_texts f w) = map (\<lambda>c. c\<lparr>c_text := f c\<rparr>) (edit_controls w)"
  by (simp add: edit_controls_def with_texts_def filter_map o_def)

lemma fill_calls_with_text [simp]: "fill_calls p (c\<lparr>c_text := t\<rparr>) v = fill_calls p c v"
  by (simp add: fill_calls_def)

lemma fill_control_with_text: "fill_control p (c\<lparr>c_text := t\<rparr>) v = fill_control p c v"
  by (simp add: fill_control_def split: option.splits)

lemma fill_in_windows_with_texts:
  "fill_in_windows p idx v (map (with_texts f) ws) = fill_in_windows p idx v ws"
proof (induction ws)
  case Nil
  show ?case by simp
next
  case (Cons w ws)
  have r: "w_enum_raises (with_texts f w) = w_enum_raises w"
    by (simp add: with_texts_def)
  show ?case
    using Cons
    by (simp add: r edit_controls_with_texts fill_control_with_text
          cong: prod.case_cong if_cong)
qed

lemma is_tehtris_window_with_texts [simp]:
  "is_tehtris_window (with_texts f w) = is_tehtris_window w"
  by (simp add: is_tehtris_window_def with_texts_def)

lemma w_hwnd_with_texts [simp]: "w_hwnd (with_texts f w) = w_hwnd w"
  by (simp add: with_texts_def)

lemma tehtris_windows_with_texts:
  "tehtris_windows ((snap :: snapshot)
      \<lparr>enum_visited := map (with_texts f) (enum_visited snap),
       find_window := map_option (with_texts f) (find_window snap)\<rparr>)
   = map (with_texts f) (tehtris_windows snap)"
  by (cases "find_window snap")
     (simp_all add: tehtris_windows_def Let_def filter_map o_def)

lemma fill_field_with_texts:
  "fill_field_with_win32gui (with_control_texts f e) l v s = fill_field_with_win32gui e l v s"
  by (simp add: fill_field_with_win32gui_def fill_events_def now_def run_events_def
        with_control_texts_def tehtris_windows_with_texts fill_in_windows_with_texts)


lemma fill_in_windows_skip:
  "\<forall>u\<in>set pre. w_enum_raises u \<or> length (edit_controls u) \<le> idx \<Longrightarrow>
   fill_in_windows p idx v (pre @ rest) = fill_in_windows p idx v rest"
  by (induction pre) auto

lemma fill_in_windows_first:
  assumes "\<forall>u\<in>set pre. w_enum_raises u \<or> length (edit_controls u) \<le> idx"
    and "\<not> w_enum_raises w" and "idx < length (edit_controls w)"
    and "c_fill_fault (edit_controls w ! idx) = None"
  shows "fill_in_windows p idx v (pre @ w # post)
           = (True, fill_calls p (edit_controls w ! idx) v)"
proof -
  from assms(3) have "edit_controls w \<noteq> []" by auto
  with assms show ?thesis
    by (simp add: fill_in_windows_skip fill_control_def)
qed

lemma two_window_split:
  "win32_import_ok (now two_window_env initial_state)
   \<and> tehtris_windows (now two_window_env initial_state)
       = [setup_window 1 [edit_box 11 (100, 100, 300, 120)]]
         @ setup_window 2
             [edit_box 21 (100, 100, 300, 120), edit_box 22 (100, 140, 300, 160),
              edit_box 23 (100, 180, 300, 200)] # []
   \<and> (\<forall>u\<in>set [setup_window 1 [edit_box 11 (100, 100, 300, 120)]].
         w_enum_raises u \<or> length (edit_controls u) \<le> field_index ''tag'')
   \<and> \<not> w_enum_raises (setup_window 2
             [edit_box 21 (100, 100, 300, 120), edit_box 22 (100, 140, 300, 160),
              edit_box 23 (100, 180, 300, 200)])
   \<and> field_index ''tag'' < length (edit_controls (setup_window 2
             [edit_box 21 (100, 100, 300, 120), edit_box 22 (100, 140, 300, 160),
              edit_box 23 (100, 180, 300, 200)]))
   \<and> c_fill_fault (edit_controls (setup_window 2
             [edit_box 21 (100, 100, 300, 120), edit_box 22 (100, 140, 300, 160),
              edit_box 23 (100, 180, 300, 200)]) ! field_index ''tag'') = None"
  by code_simp


text \<open>
  Claim C10, amended. \<^verbatim>\<open>fill_field_with_win32gui\<close> chooses its target by position among
  the edit controls of a TEHTRIS window, never by the text on the screen. The position is
  0 when the label in lower case contains \<open>server\<close>, else 1 when it contains \<open>tag\<close>, else 2
  when it contains \<open>license\<close>, else 0. Every call the function makes, the enumeration
  apart, is one of the calls that fill the edit control at that position in a TEHTRIS
  window. A window whose children cannot be enumerated or in which the position is out of
  range is passed over and the next TEHTRIS window is tried: the first window in which
  the position is in range is the one whose edit control at that position is filled
  (when none of the calls on it raises), and the function returns \<open>True\<close>. When the
  position is out of range in every TEHTRIS window, the function returns \<open>False\<close> and
  fills nothing. Replacing the text of every control changes nothing.
\<close>

theorem fill_field_with_win32gui_by_position:
  "(str_in ''server'' (lower l) \<longrightarrow> field_index l = 0)
   \<and> (\<not> str_in ''server'' (lower l) \<and> str_in ''tag'' (lower l) \<longrightarrow> field_index l = 1)
   \<and> (\<not> str_in ''server'' (lower l) \<and> \<not> str_in ''tag'' (lower l)
        \<and> str_in ''license'' (lower l) \<longrightarrow> field_index l = 2)
   \<and> (\<not> str_in ''server'' (lower l) \<and> \<not> str_in ''tag'' (lower l)
        \<and> \<not> str_in ''license'' (lower l) \<longrightarrow> field_index l = 0)
   \<and> (ev \<in> set (drop (length (trace s)) (trace (snd (fill_field_with_win32gui e l v s))))
        \<longrightarrow> ev = EnumWindows
            \<or> (\<exists>w\<in>set (tehtris_windows (now e s)).
                  field_index l < length (edit_controls w)
                  \<and> ev \<in> set (fill_calls (pyautogui_available e)
                                 (edit_controls w ! field_index l) v)))
   \<and> (win32_import_ok (now e s)
        \<and> tehtris_windows (now e s) = pre @ w # post
        \<and> (\<forall>u\<in>set pre. w_enum_raises u \<or> length (edit_controls u) \<le> field_index l)
        \<and> \<not> w_enum_raises w \<and> field_index l < length (edit_controls w)
        \<and> c_fill_fault (edit_controls w ! field_index l) = None
        \<longrightarrow> fill_field_with_win32gui e l v s
              = (True,
                 run_events e
                   (EnumWindows
                    # fill_calls (pyautogui_available e) (edit_controls w ! field_index l) v)
                   s))
   \<and> ((\<forall>w\<in>set (tehtris_windows (now e s)).
          w_enum_raises w \<or> length (edit_controls w) \<le> field_index l)
        \<longrightarrow> fst (fill_field_with_win32gui e l v s) = False
            \<and> set (drop (length (trace s)) (trace (snd (fill_field_with_win32gui e l v s))))
                \<subseteq> {EnumWindows})
   \<and> fill_field_with_win32gui (with_control_texts f e) l v s = fill_field_with_win32gui e l v s"
proof (intro conjI impI)
  assume "ev \<in> set (drop (length (trace s)) (trace (snd (fill_field_with_win32gui e l v s))))"
  then have "ev \<in> set (snd (fill_events (now e s) (pyautogui_available e) l v))"
    by (simp add: fill_field_with_win32gui_trace)
  from fill_events_cases [OF this] fill_in_windows_events
  show "ev = EnumWindows
            \<or> (\<exists>w\<in>set (tehtris_windows (now e s)).
                  field_index l < length (edit_controls w)
                  \<and> ev \<in> set (fill_calls (pyautogui_available e)
                                 (edit_controls w ! field_index l) v))"
    by blast
next
  assume a: "win32_import_ok (now e s)
        \<and> tehtris_windows (now e s) = pre @ w # post
        \<and> (\<forall>u\<in>set pre. w_enum_raises u \<or> length (edit_controls u) \<le> field_index l)
        \<and> \<not> w_enum_raises w \<and> field_index l < length (edit_controls w)
        \<and> c_fill_fault (edit_controls w ! field_index l) = None"
  then have "fill_in_windows (pyautogui_available e) (field_index l) v (pre @ w # post)
           = (True, fill_calls (pyautogui_available e) (edit_controls w ! field_index l) v)"
    using fill_in_windows_first by blast
  with a show "fill_field_with_win32gui e l v s
              = (True,
                 run_events e
                   (EnumWindows
                    # fill_calls (pyautogui_available e) (edit_controls w ! field_index l) v)
                   s)"
    by (simp add: fill_field_with_win32gui_def fill_events_def)
next
  assume out: "\<forall>w\<in>set (tehtris_windows (now e s)).
          w_enum_raises w \<or> length (edit_controls w) \<le> field_index l"
  have ev: "fill_events (now e s) (pyautogui_available e) l v = (False, [])
        \<or> fill_events (now e s) (pyautogui_available e) l v = (False, [EnumWindows])"
    by (simp add: fill_events_def fill_in_windows_out_of_range [OF out])
  then show "fst (fill_field_with_win32gui e l v s) = False"
    by (auto simp: fill_field_with_win32gui_def)
  from ev show "set (drop (length (trace s)) (trace (snd (fill_field_with_win32gui e l v s))))
                \<subseteq> {EnumWindows}"
    by (auto simp: fill_field_with_win32gui_trace)
qed (simp_all add: field_index_def fill_field_with_texts)

theorem fill_field_with_win32gui_by_position_witness:
  "field_index ''server'' = 0 \<and> field_index ''tag'' = 1 \<and> field_index ''license'' = 2
   \<and> field_index ''port'' = 0
   \<and> trace (snd (fill_field_with_win32gui two_window_env ''tag'' ''XPG_QAT'' initial_state))
       = [EnumWindows, FocusClick 200 150, Sleep 200, SetText 22 [], Sleep 100,
          SetText 22 ''XPG_QAT'', Sleep 100, TabKey 22 True, TabKey 22 False]
   \<and> (\<exists>w\<in>set (tehtris_windows (now two_window_env initial_state)).
         field_index ''tag'' < length (edit_controls w)
         \<and> SetText 22 ''XPG_QAT''
             \<in> set (fill_calls (pyautogui_available two_window_env)
                      (edit_controls w ! field_index ''tag'') ''XPG_QAT''))
   \<and> fill_field_with_win32gui two_window_env ''tag'' ''XPG_QAT'' initial_state
       = (True,
          run_events two_window_env
            (EnumWindows
             # fill_calls (pyautogui_available two_window_env)
                 (edit_controls (setup_window 2
                    [edit_box 21 (100, 100, 300, 120), edit_box 22 (100, 140, 300, 160),
                     edit_box 23 (100, 180, 300, 200)]) ! field_index ''tag'') ''XPG_QAT'')
            initial_state)
   \<and> fst (fill_field_with_win32gui license_env ''tag'' ''XPG_QAT'' initial_state) = False
   \<and> set (drop (length (trace initial_state))
             (trace (snd (fill_field_with_win32gui license_env ''tag'' ''XPG_QAT'' initial_state))))
        \<subseteq> {EnumWindows}"
proof -
  have s1: "str_in ''server'' (lower ''server'')" by code_simp
  have s2: "\<not> str_in ''server'' (lower ''tag'') \<and> str_in ''tag'' (lower ''tag'')" by code_simp
  have s3: "\<not> str_in ''server'' (lower ''license'') \<and> \<not> str_in ''tag'' (lower ''license'')
            \<and> str_in ''license'' (lower ''license'')" by code_simp
  have s4: "\<not> str_in ''server'' (lower ''port'') \<and> \<not> str_in ''tag'' (lower ''port'')
            \<and> \<not> str_in ''license'' (lower ''port'')" by code_simp
  have t: "trace (snd (fill_field_with_win32gui two_window_env ''tag'' ''XPG_QAT'' initial_state))
       = [EnumWindows, FocusClick 200 150, Sleep 200, SetText 22 [], Sleep 100,
          SetText 22 ''XPG_QAT'', Sleep 100, TabKey 22 True, TabKey 22 False]"
    by code_simp
  have m: "SetText 22 ''XPG_QAT''
      \<in> set (drop (length (trace initial_state))
          (trace (snd (fill_field_with_win32gui two_window_env ''tag'' ''XPG_QAT'' initial_state))))"
    by (simp add: t trace_initial_state)
  have out: "\<forall>w\<in>set (tehtris_windows (now license_env initial_state)).
          w_enum_raises w \<or> length (edit_controls w) \<le> field_index ''tag''"
    by code_simp
  note a = fill_field_with_win32gui_by_position [where l = "''server''"]
    and b = fill_field_with_win32gui_by_position
              [where l = "''tag''" and e = two_window_env and s = initial_state
                 and v = "''XPG_QAT''" and ev = "SetText 22 ''XPG_QAT''"
                 and pre = "[setup_window 1 [edit_box 11 (100, 100, 300, 120)]]"
                 and w = "setup_window 2
                    [edit_box 21 (100, 100, 300, 120), edit_box 22 (100, 140, 300, 160),
                     edit_box 23 (100, 180, 300, 200)]"
                 and post = "[]"]
    and c = fill_field_with_win32gui_by_position [where l = "''license''"]
    and d = fill_field_with_win32gui_by_position [where l = "''port''"]
    and f = fill_field_with_win32gui_by_position
              [where l = "''tag''" and e = license_env and s = initial_state
                 and v = "''XPG_QAT''"]
  from a s1 have 1: "field_index ''server'' = 0" by blast
  from b s2 have 2: "field_index ''tag'' = 1" by blast
  from c s3 have 3: "field_index ''license'' = 2" by blast
  from d s4 have 4: "field_index ''port'' = 0" by blast
  from b m have 5: "\<exists>w\<in>set (tehtris_windows (now two_window_env initial_state)).
         field_index ''tag'' < length (edit_controls w)
         \<and> SetText 22 ''XPG_QAT''
             \<in> set (fill_calls (pyautogui_available two_window_env)
                      (edit_controls w ! field_index ''tag'') ''XPG_QAT'')"
    by blast
  from b two_window_split
  have 7: "fill_field_with_win32gui two_window_env ''tag'' ''XPG_QAT'' initial_state
       = (True,
          run_events two_window_env
            (EnumWindows
             # fill_calls (pyautogui_available two_window_env)
                 (edit_controls (setup_window 2
                    [edit_box 21 (100, 100, 300, 120), edit_box 22 (100, 140, 300, 160),
                     edit_box 23 (100, 180, 300, 200)]) ! field_index ''tag'') ''XPG_QAT'')
            initial_state)"
    by blast
  from f out have 6: "fst (fill_field_with_win32gui license_env ''tag'' ''XPG_QAT'' initial_state) = False
   \<and> set (drop (length (trace initial_state))
             (trace (snd (fill_field_with_win32gui license_env ''tag'' ''XPG_QAT'' initial_state))))
        \<subseteq> {EnumWindows}"
    by blast
  from 1 2 3 4 t 5 6 7 show ?thesis by blast
qed

text \<open>
  The claim as it was stated fails twice. The label \<open>Server tag\<close> contains \<open>tag\<close> and
  is given index 0. And with the label \<open>tag\<close>, index 1 is out of range for the one edit
  control of the first window, yet the function goes on to the second window, fills its
  second edit control and returns \<open>True\<close>.
\<close>

theorem fill_field_index_counterexample:
  "str_in ''tag'' (lower ''Server tag'') \<and> field_index ''Server tag'' = 0
   \<and> length (edit_controls (hd (tehtris_windows (now two_window_env initial_state)))) = 1
   \<and> field_index ''tag'' = 1
   \<and> fill_field_with_win32gui two_window_env ''tag'' ''XPG_QAT'' initial_state
       = (True,
          \<lparr>trace = [EnumWindows, FocusClick 200 150, Sleep 200, SetText 22 [], Sleep 100,
                    SetText 22 ''XPG_QAT'', Sleep 100, TabKey 22 True, TabKey 22 False],
           tick = 1, clock = 400\<rparr>)"
  by code_simp

subsection \<open>Retrying an operation\<close>

lemma retry_loop_log:
  "int a + int k = max_retries e \<Longrightarrow>
   retry_loop e operation a k s = ((r, calls), s') \<Longrightarrow>
   length calls \<le> k
   \<and> (0 < k \<longrightarrow> calls \<noteq> [])
   \<and> (k = 0 \<longrightarrow> r = Inr None)
   \<and> (0 < k \<and> (\<forall>x\<in>set calls. isl x) \<longrightarrow> length calls = k \<and> r = Inl (projl (last calls)))
   \<and> (\<forall>v. r = Inr (Some v) \<longrightarrow> calls \<noteq> [] \<and> last calls = Inr v)"
proof (induction k arbitrary: a s r calls s')
  case 0
  then show ?case by auto
next
  case (Suc k)
  obtain res s1 where op: "operation s = (res, s1)" by (cases "operation s")
  show ?case
  proof (cases res)
    case (Inr v)
    with op Suc.prems show ?thesis by auto
  next
    case (Inl err)
    show ?thesis
    proof (cases "k = 0")
      case True
      with Inl op Suc.prems show ?thesis by auto
    next
      case False
      with Suc.prems(1) have ne: "int a \<noteq> max_retries e - 1" by simp
      obtain r2 calls2 s2 where
        rec: "retry_loop e operation (Suc a) k (sleep (retry_delay e * (a + 1)) s1)
                = ((r2, calls2), s2)"
        by (metis prod.exhaust)
      from Suc.prems(1) have inv: "int (Suc a) + int k = max_retries e" by simp
      note ih = Suc.IH [OF inv rec]
      from Inl op ne rec Suc.prems(2) have eq: "r = r2" "calls = Inl err # calls2"
        by auto
      from False ih have "calls2 \<noteq> []" by simp
      with ih eq False show ?thesis by auto
    qed
  qed
qed


text \<open>
  Claim C4, amended. With an attempt budget \<open>max_retries = n\<close> of at least 1,
  \<^verbatim>\<open>_retry_operation\<close> calls the operation at least once and at most \<open>n\<close> times; if every
  call raises, there are exactly \<open>n\<close> calls and the exception of the last one is raised;
  if a value is returned, it is the value of the last call. With a budget of 0 or less the
  operation is never called and \<^verbatim>\<open>None\<close> is returned.
\<close>

theorem retry_operation_attempts:
  assumes "retry_operation e operation s = ((r, calls), s')"
  shows "(1 \<le> max_retries e \<longrightarrow>
            1 \<le> length calls \<and> int (length calls) \<le> max_retries e
            \<and> ((\<forall>x\<in>set calls. isl x) \<longrightarrow>
                  int (length calls) = max_retries e \<and> r = Inl (projl (last calls)))
            \<and> (\<forall>v. r = Inr (Some v) \<longrightarrow> last calls = Inr v))
         \<and> (max_retries e \<le> 0 \<longrightarrow> calls = [] \<and> r = Inr None)"
proof (rule conjI; rule impI)
  assume "max_retries e \<le> 0"
  with assms show "calls = [] \<and> r = Inr None"
    by (simp add: retry_operation_def)
next
  assume n: "1 \<le> max_retries e"
  then have inv: "int 0 + int (nat (max_retries e)) = max_retries e"
    and pos: "0 < nat (max_retries e)"
    by simp_all
  from assms have "retry_loop e operation 0 (nat (max_retries e)) s = ((r, calls), s')"
    by (simp add: retry_operation_def)
  from retry_loop_log [OF inv this] pos n
  show "1 \<le> length calls \<and> int (length calls) \<le> max_retries e
            \<and> ((\<forall>x\<in>set calls. isl x) \<longrightarrow>
                  int (length calls) = max_retries e \<and> r = Inl (projl (last calls)))
            \<and> (\<forall>v. r = Inr (Some v) \<longrightarrow> last calls = Inr v)"
    by (cases calls) auto
qed

theorem retry_operation_attempts_witness:
  "retry_operation demo_env flaky initial_state
     = ((Inl (Exc ''gave up''),
         [Inl (Exc ''not ready''), Inl (Exc ''not ready''), Inl (Exc ''gave up'')]),
        \<lparr>trace = [Sleep 2000, Sleep 4000], tick = 0, clock = 6000\<rparr>)
   \<and> max_retries demo_env = 3
   \<and> 1 \<le> length [Inl (Exc ''not ready''), Inl (Exc ''not ready''),
                   Inl (Exc ''gave up'') :: error + nat]
   \<and> int (length [Inl (Exc ''not ready''), Inl (Exc ''not ready''),
                   Inl (Exc ''gave up'') :: error + nat]) \<le> max_retries demo_env"
proof -
  have run: "retry_operation demo_env flaky initial_state
     = ((Inl (Exc ''gave up''),
         [Inl (Exc ''not ready''), Inl (Exc ''not ready''), Inl (Exc ''gave up'')]),
        \<lparr>trace = [Sleep 2000, Sleep 4000], tick = 0, clock = 6000\<rparr>)"
    by code_simp
  have n: "max_retries demo_env = 3"
    by (simp add: demo_env_def)
  from retry_operation_attempts [OF run] n run show ?thesis
    by simp
qed

text \<open>
  The claim as it was stated fails for the budget 0: the loop body never runs, the
  operation is not called at all and the function returns \<^verbatim>\<open>None\<close>.
\<close>

theorem retry_operation_zero_budget_counterexample:
  "retry_operation (demo_env\<lparr>max_retries := 0\<rparr>) (ready_after 0) initial_state
     = ((Inr None, []), initial_state)
   \<and> length (snd (fst (retry_operation (demo_env\<lparr>max_retries := 0\<rparr>) (ready_after 0)
                          initial_state))) = 0"
  by (simp add: retry_operation_def demo_env_def)

subsection \<open>Dry-run mode\<close>

lemma dry_run_steps:
  assumes "dry_run e"
  shows "launch_installer e s = (True, s)"
    and "handle_welcome_screen e s = (Inr True, s)"
    and "handle_license_agreement e s = (Inr True, s)"
    and "handle_activation_information e s = (Inr True, s)"
    and "handle_installation e s = (Inr True, s)"
    and "wait_for_completion e s = (True, s)"
    and "verify_installation e s = (True, s)"
    and "validate_prerequisites e s
           = (pywinauto_available e \<and> msi_exists e \<and> starts_with ''XPG_'' (tag (cfg e)), s)"
  using assms
  by (simp_all add: launch_installer_def handle_welcome_screen_def handle_license_agreement_def
        handle_activation_information_def handle_installation_def wait_for_completion_def
        verify_installation_def validate_prerequisites_def)

text \<open>
  Claim C8, amended. In dry-run mode every core operation that carries a dry-run guard is
  a no-op that only logs: \<^verbatim>\<open>minimize_all_windows\<close> and \<^verbatim>\<open>take_screenshot\<close> do nothing, the
  locators \<^verbatim>\<open>find_text_on_screen\<close>, \<^verbatim>\<open>find_button_by_text\<close>, \<^verbatim>\<open>find_ui_element_by_color\<close> and
  \<^verbatim>\<open>find_input_field_by_label\<close> return nothing without reading the screen, and
  \<^verbatim>\<open>smart_find_and_click\<close>, \<^verbatim>\<open>smart_fill_field\<close>, \<^verbatim>\<open>launch_installer\<close>, the four
  \<^verbatim>\<open>handle_\<close> steps, \<^verbatim>\<open>wait_for_completion\<close> and \<^verbatim>\<open>verify_installation\<close> succeed at once
  without any call to the outside world. \<^verbatim>\<open>run_installation\<close> in dry-run mode makes no
  probe and no actuation (it only sleeps between the steps, and consumes no answer of the
  outside world), and it returns \<open>True\<close> exactly when the prerequisites hold: pywinauto can
  be imported, the MSI file exists and the tag starts with \<open>XPG_\<close>.
\<close>

theorem dry_run_no_probe_no_actuation:
  assumes "dry_run e"
  shows "(\<forall>ev\<in>set (drop (length (trace s)) (trace (snd (run_installation e s)))).
            \<not> is_probe ev \<and> \<not> is_actuation ev)
         \<and> tick (snd (run_installation e s)) = tick s
         \<and> fst (run_installation e s)
             = (pywinauto_available e \<and> msi_exists e \<and> starts_with ''XPG_'' (tag (cfg e)))
         \<and> minimize_all_windows e s = s
         \<and> take_screenshot e step_name s = s
         \<and> find_text_on_screen e text s = (None, s)
         \<and> find_button_by_text e text timeout s = (None, s)
         \<and> find_ui_element_by_color e color_range min_area s = (None, s)
         \<and> find_input_field_by_label e text s = (None, s)
         \<and> smart_find_and_click e element_type text_options fallback_positions s = (Inr True, s)
         \<and> smart_fill_field e field_name v label_options fallback_positions s = (Inr True, s)
         \<and> launch_installer e s = (True, s)
         \<and> handle_welcome_screen e s = (Inr True, s)
         \<and> handle_license_agreement e s = (Inr True, s)
         \<and> handle_activation_information e s = (Inr True, s)
         \<and> handle_installation e s = (Inr True, s)
         \<and> wait_for_completion e s = (True, s)
         \<and> verify_installation e s = (True, s)"
  using assms
  by (simp add: run_installation_def dry_run_steps sleep_def smart_find_and_click_def
        smart_fill_field_def find_text_on_screen_def take_screenshot_def
        minimize_all_windows_def find_button_by_text_def find_ui_element_by_color_def
        find_input_field_by_label_def)

theorem dry_run_no_probe_no_actuation_witness:
  "run_installation (demo_env\<lparr>dry_run := True\<rparr>) initial_state
     = (True, \<lparr>trace = [Sleep 500, Sleep 500, Sleep 500, Sleep 500], tick = 0, clock = 2000\<rparr>)
   \<and> tick (snd (run_installation (demo_env\<lparr>dry_run := True\<rparr>) initial_state))
       = tick initial_state
   \<and> \<not> is_probe (Sleep 500) \<and> \<not> is_actuation (Sleep 500)
   \<and> smart_find_and_click (demo_env\<lparr>dry_run := True\<rparr>) ''Next button (welcome screen)''
         next_text_options [] initial_state = (Inr True, initial_state)
   \<and> wait_for_completion (demo_env\<lparr>dry_run := True\<rparr>) initial_state = (True, initial_state)"
proof -
  have d: "dry_run (demo_env\<lparr>dry_run := True\<rparr>)" by simp
  have run: "run_installation (demo_env\<lparr>dry_run := True\<rparr>) initial_state
     = (True, \<lparr>trace = [Sleep 500, Sleep 500, Sleep 500, Sleep 500], tick = 0, clock = 2000\<rparr>)"
    by code_simp
  from dry_run_no_probe_no_actuation [OF d, where s = initial_state] run
  show ?thesis by simp
qed

text \<open>
  The claim as it was stated fails twice. When the MSI file is missing, the prerequisites
  are checked in dry-run mode too and \<^verbatim>\<open>run_installation\<close> returns \<open>False\<close> before any
  step. And not every core operation is a no-op in dry-run mode: \<^verbatim>\<open>click_with_win32gui\<close>
  has no dry-run guard, and called in dry-run mode on the licence screen it enumerates the
  windows and posts a click.
\<close>

theorem dry_run_counterexample:
  "dry_run (demo_env\<lparr>dry_run := True, msi_exists := False\<rparr>)
   \<and> run_installation (demo_env\<lparr>dry_run := True, msi_exists := False\<rparr>) initial_state
       = (False, initial_state)
   \<and> dry_run (license_env\<lparr>dry_run := True\<rparr>)
   \<and> click_with_win32gui (license_env\<lparr>dry_run := True\<rparr>) ''accept'' initial_state
       = (True, \<lparr>trace = [EnumWindows, PostClick 12 True], tick = 1, clock = 0\<rparr>)"
  by code_simp

subsection \<open>Waiting for completion\<close>

lemma click_events_no_keyboard: "filter is_keyboard (snd (click_events snap q)) = []"
proof -
  have "\<forall>ev\<in>set (snd (click_events snap q)). \<not> is_keyboard ev"
    using click_events_targets [of _ snap q] by fastforce
  then show ?thesis by (simp add: filter_empty_conv)
qed

lemma click_with_win32gui_fst:
  "fst (click_with_win32gui e q s) = fst (click_events (now e s) q)"
  by (simp add: click_with_win32gui_def split: prod.splits)

lemma click_with_win32gui_clock: "clock s \<le> clock (snd (click_with_win32gui e q s))"
  by (simp add: click_with_win32gui_def run_events_def split: prod.splits)

lemma take_screenshot_trace:
  "\<exists>evs. trace (take_screenshot e n s) = trace s @ evs \<and> filter is_keyboard evs = []"
  by (simp add: take_screenshot_def run_events_def)

lemma take_screenshot_clock: "clock s \<le> clock (take_screenshot e n s)"
  by (simp add: take_screenshot_def run_events_def)

lemma wait_loop_never:
  assumes never: "\<forall>k. \<not> fst (click_events (timeline e k) ''Finish'')
                     \<and> \<not> fst (click_events (timeline e k) ''Close'')"
  shows "start \<le> clock s \<Longrightarrow>
         fst (wait_loop e start s) = False
         \<and> (\<exists>polls. trace (snd (wait_loop e start s)) = trace s @ polls
                    \<and> filter is_keyboard polls = [])
         \<and> start + 180000 \<le> clock (snd (wait_loop e start s))"
  using never
proof (induction e start s rule: wait_loop.induct)
  case (1 e start s)
  define s1 where "s1 = take_screenshot e ''completion_check'' s"
  define r1 where "r1 = click_with_win32gui e ''Finish'' s1"
  define r2 where "r2 = click_with_win32gui e ''Close'' (snd r1)"
  define s3 where "s3 = sleep 2000 (snd r2)"
  have f1: "\<not> fst r1" and f2: "\<not> fst r2"
    using "1.prems"(2) by (simp_all add: r1_def r2_def click_with_win32gui_fst now_def)
  show ?case
  proof (cases "clock s - start < 180000")
    case False
    with "1.prems"(1) show ?thesis
      by (simp add: wait_loop.simps [of e start s])
  next
    case True
    have eq: "wait_loop e start s = wait_loop e start s3"
      using True f1 f2
      by (simp add: wait_loop.simps [of e start s] s1_def r1_def r2_def s3_def)
    have c: "clock s \<le> clock s3"
      using take_screenshot_clock [of s e "''completion_check''"]
        click_with_win32gui_clock [of s1 e "''Finish''"]
        click_with_win32gui_clock [of "snd r1" e "''Close''"]
      by (simp add: s3_def sleep_def r2_def r1_def s1_def)
    obtain evs0 where t0: "trace s1 = trace s @ evs0" "filter is_keyboard evs0 = []"
      using take_screenshot_trace s1_def by blast
    have t3: "trace s3 = trace s @ (evs0 @ snd (click_events (now e s1) ''Finish'')
                 @ snd (click_events (now e (snd r1)) ''Close'') @ [Sleep 2000])"
      by (simp add: s3_def sleep_def r2_def r1_def click_with_win32gui_trace t0)
    have k3: "filter is_keyboard (evs0 @ snd (click_events (now e s1) ''Finish'')
                 @ snd (click_events (now e (snd r1)) ''Close'') @ [Sleep 2000]) = []"
      by (simp add: t0 click_events_no_keyboard)
    have "start \<le> clock s3" using c "1.prems"(1) by simp
    from "1.IH" [OF True f1 [unfolded r1_def s1_def] f2 [unfolded r2_def r1_def s1_def]
                   this [unfolded s3_def r2_def r1_def s1_def] "1.prems"(2)]
    have ih: "fst (wait_loop e start s3) = False
         \<and> (\<exists>polls. trace (snd (wait_loop e start s3)) = trace s3 @ polls
                    \<and> filter is_keyboard polls = [])
         \<and> start + 180000 \<le> clock (snd (wait_loop e start s3))"
      by (simp add: s3_def r2_def r1_def s1_def)
    then obtain polls where
      p: "trace (snd (wait_loop e start s3)) = trace s3 @ polls" "filter is_keyboard polls = []"
      by blast
    have "trace (snd (wait_loop e start s)) = trace s @ ((evs0 @ snd (click_events (now e s1) ''Finish'')
                 @ snd (click_events (now e (snd r1)) ''Close'') @ [Sleep 2000]) @ polls)"
      using p(1) t3 eq by simp
    moreover have "filter is_keyboard ((evs0 @ snd (click_events (now e s1) ''Finish'')
                 @ snd (click_events (now e (snd r1)) ''Close'') @ [Sleep 2000]) @ polls) = []"
      using k3 p(2) by simp
    ultimately show ?thesis
      using ih eq by metis
  qed
qed


text \<open>
  Claim C3, amended. Take a run of \<^verbatim>\<open>wait_for_completion\<close>, not in dry-run mode, in
  which neither a Finish nor a Close control ever resolves. The polling loop ends without
  a click once 180 seconds have passed, and no key is pressed during it. Then, when
  pyautogui is available and the hotkey call does not raise, the step presses Alt+F
  exactly once, sleeps one second and returns \<open>True\<close>; when the hotkey call raises, the
  step returns \<open>False\<close> after that one attempt; when pyautogui is not available, no key is
  pressed and the step returns \<open>False\<close>.
\<close>

theorem wait_for_completion_timeout:
  assumes "\<not> dry_run e"
    and "\<forall>k. \<not> fst (click_events (timeline e k) ''Finish'')
             \<and> \<not> fst (click_events (timeline e k) ''Close'')"
  shows "(pyautogui_available e \<and> (\<forall>k. \<not> hotkey_raises (timeline e k)) \<longrightarrow>
            fst (wait_for_completion e s) = True
            \<and> (\<exists>polls. drop (length (trace s)) (trace (snd (wait_for_completion e s)))
                          = polls @ [Hotkey ''alt'' ''f'' True, Sleep 1000]
                        \<and> filter is_keyboard polls = []
                        \<and> trace (snd (wait_loop e (clock s) s)) = trace s @ polls)
            \<and> clock s + 180000 \<le> clock (snd (wait_loop e (clock s) s)))
         \<and> (pyautogui_available e \<and> hotkey_raises (now e (snd (wait_loop e (clock s) s))) \<longrightarrow>
              fst (wait_for_completion e s) = False
              \<and> length (filter is_keyboard
                          (drop (length (trace s)) (trace (snd (wait_for_completion e s))))) = 1)
         \<and> (\<not> pyautogui_available e \<longrightarrow>
              fst (wait_for_completion e s) = False
              \<and> filter is_keyboard
                  (drop (length (trace s)) (trace (snd (wait_for_completion e s)))) = [])"
proof -
  obtain b s1 where w: "wait_loop e (clock s) s = (b, s1)"
    by (cases "wait_loop e (clock s) s")
  from wait_loop_never [OF assms(2), of "clock s" s] w
  obtain polls where
    l: "b = False" "trace s1 = trace s @ polls" "filter is_keyboard polls = []"
       "clock s + 180000 \<le> clock s1"
    by auto
  show ?thesis
    using assms(1) w l
    by (auto simp: wait_for_completion_def hotkey_def run_events_def sleep_def now_def)
qed


theorem wait_for_completion_timeout_witness:
  "fst (wait_for_completion demo_env initial_state) = True
   \<and> (\<exists>polls. drop (length (trace initial_state))
                  (trace (snd (wait_for_completion demo_env initial_state)))
                 = polls @ [Hotkey ''alt'' ''f'' True, Sleep 1000]
               \<and> filter is_keyboard polls = []
               \<and> trace (snd (wait_loop demo_env (clock initial_state) initial_state))
                   = trace initial_state @ polls)
   \<and> clock initial_state + 180000
       \<le> clock (snd (wait_loop demo_env (clock initial_state) initial_state))"
proof -
  have d: "\<not> dry_run demo_env"
    by (simp add: demo_env_def)
  have n: "\<forall>k. \<not> fst (click_events (timeline demo_env k) ''Finish'')
             \<and> \<not> fst (click_events (timeline demo_env k) ''Close'')"
    by (simp add: demo_env_def quiet_snapshot_def click_events_def tehtris_windows_def)
  have p: "pyautogui_available demo_env \<and> (\<forall>k. \<not> hotkey_raises (timeline demo_env k))"
    by (simp add: demo_env_def quiet_snapshot_def)
  from wait_for_completion_timeout [OF d n, of initial_state] p
  show ?thesis by blast
qed

text \<open>
  The claim as it was stated fails when pyautogui is not available: on a desktop where
  neither Finish nor Close ever resolves, the step presses no key at all and returns
  \<open>False\<close>.
\<close>

theorem wait_for_completion_no_pyautogui_counterexample:
  "\<not> dry_run (demo_env\<lparr>pyautogui_available := False\<rparr>)
   \<and> timeline (demo_env\<lparr>pyautogui_available := False\<rparr>) = (\<lambda>k. quiet_snapshot)
   \<and> click_events quiet_snapshot ''Finish'' = (False, [EnumWindows])
   \<and> click_events quiet_snapshot ''Close'' = (False, [EnumWindows])
   \<and> fst (wait_for_completion (demo_env\<lparr>pyautogui_available := False\<rparr>) initial_state) = False
   \<and> filter is_keyboard
       (trace (snd (wait_for_completion (demo_env\<lparr>pyautogui_available := False\<rparr>)
                      initial_state))) = []"
proof -
  let ?e = "demo_env\<lparr>pyautogui_available := False\<rparr>"
  have d: "\<not> dry_run ?e" and tl: "timeline ?e = (\<lambda>k. quiet_snapshot)"
    and np: "\<not> pyautogui_available ?e"
    by (simp_all add: demo_env_def)
  have f: "click_events quiet_snapshot ''Finish'' = (False, [EnumWindows])"
    and c: "click_events quiet_snapshot ''Close'' = (False, [EnumWindows])"
    by (simp_all add: quiet_snapshot_def click_events_def tehtris_windows_def)
  have n: "\<forall>k. \<not> fst (click_events (timeline ?e k) ''Finish'')
             \<and> \<not> fst (click_events (timeline ?e k) ''Close'')"
    by (simp add: tl f c)
  from wait_loop_never [OF n, of "clock initial_state" initial_state]
  obtain polls where
    l: "fst (wait_loop ?e (clock initial_state) initial_state) = False"
       "trace (snd (wait_loop ?e (clock initial_state) initial_state)) = trace initial_state @ polls"
       "filter is_keyboard polls = []"
    by auto
  obtain b s1 where ws: "wait_loop ?e (clock initial_state) initial_state = (b, s1)"
    by (cases "wait_loop ?e (clock initial_state) initial_state")
  with l(1) have b: "b = False" by simp
  have w: "wait_for_completion ?e initial_state
             = (False, snd (wait_loop ?e (clock initial_state) initial_state))"
    using d np by (simp add: wait_for_completion_def ws b)
  show ?thesis
    using d tl f c w l by (simp add: trace_initial_state)
qed

subsection \<open>The resolver \<^verbatim>\<open>smart_find_and_click\<close>\<close>

lemma ocr_log_simps [simp]:
  "ocr_log []"
  "ocr_log (ev # evs)
     = (((\<exists>t. ev = OcrScan t) \<or> (\<exists>x y t r. ev = ClickCoordinates x y (FoundByText t) r))
        \<and> ocr_log evs)"
  "ocr_log (xs @ ys) = (ocr_log xs \<and> ocr_log ys)"
  by (auto simp: ocr_log_def)

lemma fb_log_simps [simp]:
  "fb_log []"
  "fb_log (ev # evs)
     = ((is_sleep ev \<or> (\<exists>x y r. ev = ClickCoordinates x y FallbackPosition r)) \<and> fb_log evs)"
  "fb_log (xs @ ys) = (fb_log xs \<and> fb_log ys)"
  by (auto simp: fb_log_def)

lemma kb_log_simps [simp]:
  "kb_log []"
  "kb_log (ev # evs) = ((is_sleep ev \<or> (\<exists>a b ok. ev = Hotkey a b ok)) \<and> kb_log evs)"
  "kb_log (xs @ ys) = (kb_log xs \<and> kb_log ys)"
  by (auto simp: kb_log_def)

lemma ocr_texts_append [simp]: "ocr_texts (xs @ ys) = ocr_texts xs @ ocr_texts ys"
  by (induction xs rule: ocr_texts.induct) auto

lemma fallback_clicks_append [simp]:
  "fallback_clicks (xs @ ys) = fallback_clicks xs @ fallback_clicks ys"
  by (induction xs rule: fallback_clicks.induct) auto



lemma find_text_on_screen_trace:
  "\<exists>evs. trace (snd (find_text_on_screen e t s)) = trace s @ evs
         \<and> (evs = [] \<or> evs = [OcrScan t])"
  by (simp add: find_text_on_screen_def run_events_def)





lemma sleep_trace [simp]: "trace (sleep ms s) = trace s @ [Sleep ms]"
  by (simp add: sleep_def)





lemma kb_log_no_ocr: "kb_log evs \<Longrightarrow> ocr_texts evs = []"
  by (induction evs rule: ocr_texts.induct) auto

lemma kb_log_no_fallback: "kb_log evs \<Longrightarrow> fallback_clicks evs = []"
  by (induction evs rule: fallback_clicks.induct) auto






end
